theory Spec2Isabelle
  imports Complex_Main "HOL-Library.Sublist" "HOL-Library.AList" "HOL-Library.Product_Lexorder"
begin

section \<open>Common Python notions\<close>

text \<open>
  Python floats are modelled as the real numbers they stand for. Where a result depends on
  how float arithmetic rounds, in the sort key of \<open>recall\<close> and in
  \<open>decay_emotions\<close>, the rounding of a real number to a float is a parameter
  \<open>rnd\<close> of the model: a literal denotes the rounded value of its decimal, and an
  arithmetic operation yields the rounded value of its exact result. Elsewhere the
  arithmetic is exact. Python's unbounded
  integers are modelled as \<open>int\<close>, and a \<open>datetime\<close> as the number of microseconds since
  an arbitrary epoch. An ISO-8601 string produced by \<open>isoformat()\<close> is represented by
  the instant it denotes: \<open>fromisoformat\<close> inverts \<open>isoformat\<close>, and such strings
  compare lexicographically exactly as their instants compare. Every call of
  \<open>datetime.now()\<close> inside one operation reads the same instant \<open>now\<close>, which is a
  parameter of the operation. Strings are lists of 8-bit characters.
\<close>

type_synonym datetime = int

datatype py_error = KeyError | TypeError | IndexError | RuntimeError | AttributeError

definition timedelta_days :: "int \<Rightarrow> int" where
  "timedelta_days n = n * 86400000000"

definition timedelta_minutes :: "int \<Rightarrow> int" where
  "timedelta_minutes n = n * 60000000"

text \<open>The \<open>days\<close> attribute of a \<open>timedelta\<close>: whole days, rounded towards minus infinity.\<close>

definition days :: "int \<Rightarrow> int" where
  "days d = d div 86400000000"

definition total_seconds :: "int \<Rightarrow> real" where
  "total_seconds d = real_of_int d / 1000000"

text \<open>
  \<open>str.lower\<close> on ASCII letters; every other character is left as it is. The memory
  store, which holds any text, takes \<open>str.lower\<close> as a parameter \<open>lwr\<close> of the
  operations that call it, so that what is proved of them holds for the lower-casing of
  every character set.
\<close>

definition lower_char :: "char \<Rightarrow> char" where
  "lower_char c = (let n = (of_char c :: nat) in if 65 \<le> n \<and> n \<le> 90 then char_of (n + 32) else c)"

definition lower :: "string \<Rightarrow> string" where
  "lower s = map lower_char s"

text \<open>Python's \<open>needle in haystack\<close> on strings. A text outside ASCII is held in
  UTF-8, in which one text occurs in another as a sequence of bytes exactly when it occurs
  there as a sequence of characters.\<close>

definition py_in :: "string \<Rightarrow> string \<Rightarrow> bool" where
  "py_in needle hay = sublist needle hay"

definition is_space :: "char \<Rightarrow> bool" where
  "is_space c = (let n = (of_char c :: nat) in (9 \<le> n \<and> n \<le> 13) \<or> (28 \<le> n \<and> n \<le> 32))"

definition py_strip :: "string \<Rightarrow> string" where
  "py_strip s = rev (dropWhile is_space (rev (dropWhile is_space s)))"

text \<open>The slice \<open>xs[:k]\<close>: a negative \<open>k\<close> counts from the end.\<close>

definition py_prefix :: "'a list \<Rightarrow> int \<Rightarrow> 'a list" where
  "py_prefix xs k = (if 0 \<le> k then take (nat k) xs else take (length xs - nat (- k)) xs)"

text \<open>
  A dict comprehension \<open>{key(x): x for x in xs}\<close> followed by \<open>.values()\<close>: a key keeps
  the position of its first occurrence and the value of its last.
\<close>

definition dict_values_by :: "('a \<Rightarrow> 'k) \<Rightarrow> 'a list \<Rightarrow> 'a list" where
  "dict_values_by key xs = map snd (fold (\<lambda>x d. AList.update (key x) x d) xs [])"

section \<open>Memory entries (memory.py)\<close>

record memory_entry =
  content :: string
  memory_type :: string
  timestamp :: datetime
  importance :: real
  tags :: "string list"
  access_count :: int
  last_accessed :: datetime

text \<open>\<open>MemoryEntry.__init__\<close>; \<open>tags\<close> is \<open>None\<close> by default.\<close>

definition MemoryEntry :: "datetime \<Rightarrow> string \<Rightarrow> string \<Rightarrow> real \<Rightarrow> string list option \<Rightarrow> memory_entry" where
  "MemoryEntry now c t imp tgs =
     \<lparr> content = c, memory_type = t, timestamp = now,
       importance = max 0 (min 1 imp),
       tags = (case tgs of None \<Rightarrow> [] | Some [] \<Rightarrow> [] | Some ts \<Rightarrow> ts),
       access_count = 0, last_accessed = now \<rparr>"

text \<open>The values a serialised entry holds.\<close>

datatype json = JString string | JFloat real | JInt int | JTags "string list" | JTime datetime

type_synonym json_dict = "string \<rightharpoonup> json"

definition to_dict :: "memory_entry \<Rightarrow> json_dict" where
  "to_dict e = map_of
     [(''content'', JString (content e)),
      (''memory_type'', JString (memory_type e)),
      (''timestamp'', JTime (timestamp e)),
      (''importance'', JFloat (importance e)),
      (''tags'', JTags (tags e)),
      (''access_count'', JInt (access_count e)),
      (''last_accessed'', JTime (last_accessed e))]"

text \<open>
  \<open>MemoryEntry.from_dict\<close>. \<open>data["content"]\<close> raises \<open>KeyError\<close> when the key is
  missing; the other fields have defaults. A value of the wrong shape is reported as
  \<open>TypeError\<close>.
\<close>

definition from_dict :: "datetime \<Rightarrow> json_dict \<Rightarrow> py_error + memory_entry" where
  "from_dict now data =
    (case data ''content'' of
       None \<Rightarrow> Inl KeyError
     | Some (JString c) \<Rightarrow>
        (case (case data ''memory_type'' of None \<Rightarrow> Some ''conversation'' | Some (JString t) \<Rightarrow> Some t | _ \<Rightarrow> None) of
           None \<Rightarrow> Inl TypeError
         | Some t \<Rightarrow>
        (case (case data ''importance'' of None \<Rightarrow> Some 0.5 | Some (JFloat i) \<Rightarrow> Some i
                 | Some (JInt i) \<Rightarrow> Some (real_of_int i) | _ \<Rightarrow> None) of
           None \<Rightarrow> Inl TypeError
         | Some imp \<Rightarrow>
        (case (case data ''tags'' of None \<Rightarrow> Some [] | Some (JTags ts) \<Rightarrow> Some ts | _ \<Rightarrow> None) of
           None \<Rightarrow> Inl TypeError
         | Some tgs \<Rightarrow>
        (case (case data ''timestamp'' of None \<Rightarrow> Some now | Some (JTime ts) \<Rightarrow> Some ts | _ \<Rightarrow> None) of
           None \<Rightarrow> Inl TypeError
         | Some ts \<Rightarrow>
        (case (case data ''access_count'' of None \<Rightarrow> Some 0 | Some (JInt n) \<Rightarrow> Some n | _ \<Rightarrow> None) of
           None \<Rightarrow> Inl TypeError
         | Some ac \<Rightarrow>
        (case (case data ''last_accessed'' of None \<Rightarrow> Some ts | Some (JTime la) \<Rightarrow> Some la | _ \<Rightarrow> None) of
           None \<Rightarrow> Inl TypeError
         | Some la \<Rightarrow>
            Inr ((MemoryEntry now c t imp (Some tgs))
                   \<lparr> timestamp := ts, access_count := ac, last_accessed := la \<rparr>)))))))
     | Some _ \<Rightarrow> Inl TypeError)"

section \<open>The memory store (memory.py)\<close>

text \<open>
  \<open>SpectraMemory\<close>: the list of entries, the capacity, and the document last written
  to the memory file. Entries are mutable objects shared between the store's list and the
  lists an operation builds from it, so an operation addresses them by their position in
  the store's list.
\<close>

record spectra_memory =
  memories :: "memory_entry list"
  max_memories :: nat
  document :: "json_dict list"

definition SpectraMemory :: spectra_memory where
  "SpectraMemory = \<lparr> memories = [], max_memories = 1000, document = [] \<rparr>"

text \<open>
  \<open>_cleanup_memories\<close>. Python's \<open>sort(key=..., reverse=True)\<close> is stable: entries
  of equal key keep their order. That is the stable ascending sort by the negated key.
\<close>

definition cleanup_memories :: "datetime \<Rightarrow> spectra_memory \<Rightarrow> spectra_memory" where
  "cleanup_memories now s =
    (let important_memories = filter (\<lambda>m. importance m \<ge> 0.8) (memories s);
         cutoff_date = now - timedelta_days 7;
         recent_memories = filter (\<lambda>m. timestamp m \<ge> cutoff_date) (memories s);
         keep_memories = dict_values_by content (important_memories @ recent_memories);
         keep_memories =
           (if length keep_memories > max_memories s
            then take (max_memories s) (sort_key (\<lambda>x. - access_count x) keep_memories)
            else keep_memories)
     in s\<lparr> memories := keep_memories \<rparr>)"

text \<open>
  \<open>save_memory\<close>: \<open>write_ok\<close> tells whether writing the file succeeds; a failure is
  caught and logged.
\<close>

definition save_memory :: "datetime \<Rightarrow> bool \<Rightarrow> spectra_memory \<Rightarrow> spectra_memory" where
  "save_memory now write_ok s =
    (let s' = (if length (memories s) > max_memories s then cleanup_memories now s else s)
     in if write_ok then s'\<lparr> document := map to_dict (memories s') \<rparr> else s')"

definition remember ::
  "datetime \<Rightarrow> bool \<Rightarrow> string \<Rightarrow> string \<Rightarrow> real \<Rightarrow> string list option \<Rightarrow> spectra_memory \<Rightarrow> spectra_memory" where
  "remember now write_ok c t imp tgs s =
    (if py_strip c = [] then s
     else save_memory now write_ok (s\<lparr> memories := memories s @ [MemoryEntry now c t imp tgs] \<rparr>))"

text \<open>
  The sort key of \<open>recall\<close>, evaluated as Python evaluates it on floats: every
  literal and every arithmetic operation yields the rounded value of the exact one, in
  the order of evaluation \<open>(a + b) + c\<close>. \<open>max(0, x)\<close> and
  \<open>min(x, 0.2)\<close> select one of their arguments and do not round.
\<close>

definition memory_score :: "(real \<Rightarrow> real) \<Rightarrow> datetime \<Rightarrow> memory_entry \<Rightarrow> real" where
  "memory_score rnd now m =
    (let recency = days (now - timestamp m);
         recency_score = max 0 (rnd (1 - rnd (real_of_int recency / 30)))
     in rnd (rnd (rnd (importance m * rnd 0.5) + rnd (recency_score * rnd 0.3))
             + min (rnd (real_of_int (access_count m) / 10)) (rnd 0.2)))"

text \<open>An access: the two assignments \<open>recall\<close> and \<open>search_memories\<close> make.\<close>

definition touch :: "datetime \<Rightarrow> memory_entry \<Rightarrow> memory_entry" where
  "touch now m = m\<lparr> access_count := access_count m + 1, last_accessed := now \<rparr>"

text \<open>
  The entries \<open>recall\<close> selects, as positions in the store, after the three filters and
  the sort by descending score. An absent or empty keyword, and an absent or empty type,
  do not filter.
\<close>

definition recall_sorted ::
  "(string \<Rightarrow> string) \<Rightarrow> (real \<Rightarrow> real) \<Rightarrow> datetime \<Rightarrow> string option \<Rightarrow> string option \<Rightarrow> real \<Rightarrow> memory_entry list \<Rightarrow> nat list" where
  "recall_sorted lwr rnd now keyword mtype min_importance ms =
    (let filtered = [0..<length ms];
         filtered = (case keyword of
                       None \<Rightarrow> filtered
                     | Some k \<Rightarrow> if k = [] then filtered
                         else filter (\<lambda>i. py_in (lwr k) (lwr (content (ms ! i)))) filtered);
         filtered = (case mtype of
                       None \<Rightarrow> filtered
                     | Some t \<Rightarrow> if t = [] then filtered
                         else filter (\<lambda>i. memory_type (ms ! i) = t) filtered);
         filtered = filter (\<lambda>i. importance (ms ! i) \<ge> min_importance) filtered
     in sort_key (\<lambda>i. - memory_score rnd now (ms ! i)) filtered)"

text \<open>The slice \<open>[:limit or len(filtered_memories)]\<close>, which is also \<open>[:limit]\<close> when
  \<open>limit\<close> is neither \<open>None\<close> nor zero.\<close>

definition recall_returned ::
  "(string \<Rightarrow> string) \<Rightarrow> (real \<Rightarrow> real) \<Rightarrow> datetime \<Rightarrow> string option \<Rightarrow> string option \<Rightarrow> int option \<Rightarrow> real \<Rightarrow> memory_entry list \<Rightarrow> nat list" where
  "recall_returned lwr rnd now keyword mtype limit min_importance ms =
    (let sorted_memories = recall_sorted lwr rnd now keyword mtype min_importance ms
     in case limit of
          None \<Rightarrow> sorted_memories
        | Some l \<Rightarrow> if l = 0 then sorted_memories else py_prefix sorted_memories l)"

definition recall ::
  "(string \<Rightarrow> string) \<Rightarrow> (real \<Rightarrow> real) \<Rightarrow> datetime \<Rightarrow> string option \<Rightarrow> string option \<Rightarrow> int option \<Rightarrow> real \<Rightarrow> spectra_memory
     \<Rightarrow> string list \<times> spectra_memory" where
  "recall lwr rnd now keyword mtype limit min_importance s =
    (let returned = recall_returned lwr rnd now keyword mtype limit min_importance (memories s);
         ms' = fold (\<lambda>i ms. ms[i := touch now (ms ! i)]) returned (memories s)
     in (map (\<lambda>i. content (ms' ! i)) returned, s\<lparr> memories := ms' \<rparr>))"

record search_result =
  sr_content :: string
  sr_type :: string
  sr_importance :: real
  sr_timestamp :: datetime
  sr_tags :: "string list"

definition to_result :: "memory_entry \<Rightarrow> search_result" where
  "to_result m = \<lparr> sr_content = content m, sr_type = memory_type m, sr_importance = importance m,
                   sr_timestamp = timestamp m, sr_tags = tags m \<rparr>"

text \<open>The loop of \<open>search_memories\<close> over the store: the entries after the loop and the
  results appended.\<close>

fun search_loop ::
  "(string \<Rightarrow> string) \<Rightarrow> datetime \<Rightarrow> string \<Rightarrow> memory_entry list \<Rightarrow> memory_entry list \<times> search_result list" where
  "search_loop lwr now query_lower [] = ([], [])"
| "search_loop lwr now query_lower (m # ms) =
    (let (ms', results) = search_loop lwr now query_lower ms
     in if py_in query_lower (lwr (content m))
        then (touch now m # ms', to_result m # results)
        else (m # ms', results))"

text \<open>\<open>search_memories\<close>. The results are sorted by the pair (importance, timestamp),
  descending and stable: ascending by the pair of the negated components, pairs being compared
  lexicographically.\<close>

definition search_memories ::
  "(string \<Rightarrow> string) \<Rightarrow> datetime \<Rightarrow> string \<Rightarrow> int \<Rightarrow> spectra_memory \<Rightarrow> search_result list \<times> spectra_memory" where
  "search_memories lwr now query limit s =
    (let (ms', results) = search_loop lwr now (lwr query) (memories s);
         results = sort_key (\<lambda>x. (- sr_importance x, - sr_timestamp x)) results
     in (py_prefix results limit, s\<lparr> memories := ms' \<rparr>))"

section \<open>The emotional state (emotions.py)\<close>

text \<open>
  The \<open>emotions\<close> dict is an association list in insertion order: a lookup is
  \<open>map_of\<close>, an assignment to a key is \<open>AList.update\<close>.
\<close>

record history_item =
  h_emotion :: string
  h_value :: real
  h_change :: real
  h_reason :: string
  h_timestamp :: datetime

record emotional_state =
  emotions :: "(string \<times> real) list"
  intensity :: real
  stability :: real
  last_update :: datetime
  emotion_history :: "history_item list"

definition baselines :: "(string \<times> real) list" where
  "baselines =
    [(''joy'', 0.6), (''sadness'', 0.2), (''curiosity'', 0.8), (''empathy'', 0.9),
     (''excitement'', 0.5), (''calmness'', 0.7), (''concern'', 0.3), (''wonder'', 0.6),
     (''affection'', 0.8), (''determination'', 0.7)]"

text \<open>\<open>EmotionalState.__init__\<close>: the initial values are the baselines.\<close>

definition EmotionalState :: "datetime \<Rightarrow> emotional_state" where
  "EmotionalState now =
    \<lparr> emotions =
        [(''joy'', 0.6), (''sadness'', 0.2), (''curiosity'', 0.8), (''empathy'', 0.9),
         (''excitement'', 0.5), (''calmness'', 0.7), (''concern'', 0.3), (''wonder'', 0.6),
         (''affection'', 0.8), (''determination'', 0.7)],
      intensity = 0.6, stability = 0.8, last_update = now, emotion_history = [] \<rparr>"

text \<open>The slice \<open>xs[-k:]\<close>.\<close>

definition py_suffix :: "'a list \<Rightarrow> int \<Rightarrow> 'a list" where
  "py_suffix xs k = (if 0 < k then drop (length xs - nat k) xs else drop (nat (- k)) xs)"

definition update_emotion ::
  "datetime \<Rightarrow> string \<Rightarrow> real \<Rightarrow> string \<Rightarrow> emotional_state \<Rightarrow> bool \<times> emotional_state" where
  "update_emotion now emotion change reason st =
    (case map_of (emotions st) emotion of
       None \<Rightarrow> (False, st)
     | Some old_value \<Rightarrow>
        (let actual_change = change * (1 - stability st * 0.5);
             new_value = max 0 (min 1 (old_value + actual_change));
             history = emotion_history st @
               [\<lparr> h_emotion = emotion, h_value = new_value, h_change = actual_change,
                  h_reason = reason, h_timestamp = now \<rparr>];
             history = (if length history > 100 then py_suffix history 50 else history)
         in (True, st\<lparr> emotions := AList.update emotion new_value (emotions st),
                        emotion_history := history, last_update := now \<rparr>)))"

text \<open>The loop of \<open>decay_emotions\<close> over the baselines, in exact arithmetic, as
  \<open>process_input\<close> below uses it; \<open>self.emotions[emotion]\<close>
  raises \<open>KeyError\<close> for a channel the state lacks.\<close>

fun decay_loop :: "real \<Rightarrow> (string \<times> real) list \<Rightarrow> (string \<times> real) list \<Rightarrow> py_error + (string \<times> real) list" where
  "decay_loop decay_rate [] em = Inr em"
| "decay_loop decay_rate ((emotion, baseline) # rest) em =
    (case map_of em emotion of
       None \<Rightarrow> Inl KeyError
     | Some current \<Rightarrow>
        (if current \<noteq> baseline
         then (let direction = (if baseline > current then 1 else - 1);
                   change = decay_rate * direction * \<bar>baseline - current\<bar>
               in decay_loop decay_rate rest
                    (AList.update emotion (max 0 (min 1 (current + change))) em))
         else decay_loop decay_rate rest em))"

definition decay_emotions :: "real \<Rightarrow> emotional_state \<Rightarrow> py_error + emotional_state" where
  "decay_emotions decay_rate st =
    (case decay_loop decay_rate baselines (emotions st) of
       Inl e \<Rightarrow> Inl e
     | Inr em \<Rightarrow> Inr (st\<lparr> emotions := em \<rparr>))"





definition get_dominant_emotions :: "int \<Rightarrow> emotional_state \<Rightarrow> (string \<times> real) list" where
  "get_dominant_emotions count st = py_prefix (sort_key (\<lambda>x. - snd x) (emotions st)) count"

definition emotion_at :: "emotional_state \<Rightarrow> string \<Rightarrow> py_error + real" where
  "emotion_at st k = (case map_of (emotions st) k of None \<Rightarrow> Inl KeyError | Some v \<Rightarrow> Inr v)"

definition get_emotional_tone :: "emotional_state \<Rightarrow> py_error + string" where
  "get_emotional_tone st =
    (case emotion_at st ''joy'' of Inl e \<Rightarrow> Inl e | Inr joy \<Rightarrow>
     if joy > 0.8 then Inr ''joyful'' else
    (case emotion_at st ''sadness'' of Inl e \<Rightarrow> Inl e | Inr sadness \<Rightarrow>
     if sadness > 0.6 then Inr ''melancholic'' else
    (case emotion_at st ''curiosity'' of Inl e \<Rightarrow> Inl e | Inr curiosity \<Rightarrow>
     if curiosity > 0.8 then Inr ''curious'' else
    (case emotion_at st ''excitement'' of Inl e \<Rightarrow> Inl e | Inr excitement \<Rightarrow>
     if excitement > 0.7 then Inr ''excited'' else
    (case emotion_at st ''calmness'' of Inl e \<Rightarrow> Inl e | Inr calmness \<Rightarrow>
     if calmness > 0.8 then Inr ''serene'' else
    (case emotion_at st ''concern'' of Inl e \<Rightarrow> Inl e | Inr concern \<Rightarrow>
     if concern > 0.6 then Inr ''concerned'' else
    (case emotion_at st ''empathy'' of Inl e \<Rightarrow> Inl e | Inr empathy \<Rightarrow>
     if empathy > 0.8 then Inr ''compassionate'' else Inr ''balanced'')))))))"

section \<open>The emotion engine (emotions.py)\<close>

record emotion_engine =
  state :: emotional_state
  emotion_triggers :: "(string \<times> (string \<times> real) list) list"
  last_decay :: datetime

definition setup_triggers :: "(string \<times> (string \<times> real) list) list" where
  "setup_triggers =
    [(''gratitude'', [(''joy'', 0.3), (''affection'', 0.2), (''calmness'', 0.1)]),
     (''creativity'', [(''excitement'', 0.3), (''joy'', 0.2), (''curiosity'', 0.1)]),
     (''achievement'', [(''joy'', 0.4), (''excitement'', 0.2), (''determination'', 0.1)]),
     (''learning'', [(''curiosity'', 0.3), (''wonder'', 0.2), (''excitement'', 0.1)]),
     (''humor'', [(''joy'', 0.3), (''excitement'', 0.1)]),
     (''affection'', [(''affection'', 0.3), (''joy'', 0.2), (''calmness'', 0.1)]),
     (''sadness'', [(''empathy'', 0.4), (''concern'', 0.3), (''sadness'', 0.2)]),
     (''struggle'', [(''empathy'', 0.3), (''concern'', 0.3), (''determination'', 0.2)]),
     (''pain'', [(''empathy'', 0.4), (''concern'', 0.4), (''sadness'', 0.1)]),
     (''loss'', [(''empathy'', 0.3), (''sadness'', 0.3), (''concern'', 0.2)]),
     (''question'', [(''curiosity'', 0.3), (''excitement'', 0.1)]),
     (''mystery'', [(''curiosity'', 0.4), (''wonder'', 0.3)]),
     (''discovery'', [(''excitement'', 0.3), (''wonder'', 0.2), (''joy'', 0.2)]),
     (''danger'', [(''concern'', 0.4), (''empathy'', 0.2)]),
     (''confusion'', [(''concern'', 0.2), (''empathy'', 0.2), (''curiosity'', 0.2)])]"

definition EmotionEngine :: "datetime \<Rightarrow> emotion_engine" where
  "EmotionEngine now =
    \<lparr> state = EmotionalState now, emotion_triggers = setup_triggers, last_decay = now \<rparr>"

definition trigger_words :: "(string \<times> string list) list" where
  "trigger_words =
    [(''gratitude'', [''thank'', ''grateful'', ''appreciate'', ''thankful'']),
     (''creativity'', [''create'', ''imagine'', ''idea'', ''design'', ''art'', ''write'']),
     (''achievement'', [''success'', ''accomplish'', ''achieve'', ''complete'', ''win'']),
     (''learning'', [''learn'', ''understand'', ''discover'', ''know'', ''teach'']),
     (''humor'', [''funny'', ''laugh'', ''joke'', ''amusing'', ''haha'', ''lol'']),
     (''affection'', [''love'', ''care'', ''like'', ''fond'', ''dear'', ''sweet'']),
     (''sadness'', [''sad'', ''cry'', ''tears'', ''depressed'', ''down'', ''upset'']),
     (''struggle'', [''difficult'', ''hard'', ''struggle'', ''challenging'', ''tough'']),
     (''pain'', [''hurt'', ''pain'', ''ache'', ''suffer'', ''agony'']),
     (''loss'', [''lost'', ''gone'', ''died'', ''death'', ''miss'', ''mourn'']),
     (''question'', [''?'', ''how'', ''why'', ''what'', ''when'', ''where'']),
     (''mystery'', [''mystery'', ''unknown'', ''strange'', ''weird'', ''curious'']),
     (''discovery'', [''found'', ''discover'', ''realize'', ''revelation'']),
     (''danger'', [''danger'', ''threat'', ''risk'', ''warning'', ''unsafe'']),
     (''confusion'', [''confused'', ''don'' @ [CHR 0x27] @ ''t understand'', ''unclear'', ''puzzled''])]"

text \<open>\<open>d.get(k, 0)\<close> on the dict of changes.\<close>

definition get_or_zero :: "(string \<times> real) list \<Rightarrow> string \<Rightarrow> real" where
  "get_or_zero d k = (case map_of d k of None \<Rightarrow> 0 | Some v \<Rightarrow> v)"

text \<open>The inner loop: one trigger's deltas, scaled by the intensity, added to the changes.\<close>

fun apply_trigger :: "real \<Rightarrow> (string \<times> real) list \<Rightarrow> (string \<times> real) list \<Rightarrow> (string \<times> real) list" where
  "apply_trigger intens [] emotional_changes = emotional_changes"
| "apply_trigger intens ((emotion, base_change) # rest) emotional_changes =
    (let change = base_change * intens
     in apply_trigger intens rest
          (AList.update emotion (get_or_zero emotional_changes emotion + change) emotional_changes))"

text \<open>The outer loop over the trigger words.\<close>

fun trigger_loop ::
  "(string \<times> (string \<times> real) list) list \<Rightarrow> string \<Rightarrow> (string \<times> string list) list
     \<Rightarrow> (string \<times> real) list \<Rightarrow> (string \<times> real) list" where
  "trigger_loop triggers combined_text [] emotional_changes = emotional_changes"
| "trigger_loop triggers combined_text ((trigger_type, words) # rest) emotional_changes =
    (let matches = length (filter (\<lambda>word. py_in word combined_text) words)
     in case map_of triggers trigger_type of
          Some deltas \<Rightarrow>
            if matches > 0
            then (let intens = min (real matches * 0.1) 0.3
                  in trigger_loop triggers combined_text rest
                       (apply_trigger intens deltas emotional_changes))
            else trigger_loop triggers combined_text rest emotional_changes
        | None \<Rightarrow> trigger_loop triggers combined_text rest emotional_changes)"

text \<open>The changes of the trigger table alone, before the context-specific adjustment.\<close>

definition trigger_changes ::
  "(string \<times> (string \<times> real) list) list \<Rightarrow> string \<Rightarrow> string \<Rightarrow> (string \<times> real) list" where
  "trigger_changes triggers text context =
     trigger_loop triggers (lower (text @ '' '' @ context)) trigger_words []"

definition normalize_changes :: "(string \<times> real) list \<Rightarrow> (string \<times> real) list" where
  "normalize_changes emotional_changes =
     map (\<lambda>(emotion, v). (emotion, max (- 0.5) (min 0.5 v))) emotional_changes"

definition analyze_emotional_content ::
  "(string \<times> (string \<times> real) list) list \<Rightarrow> string \<Rightarrow> string \<Rightarrow> (string \<times> real) list" where
  "analyze_emotional_content triggers text context =
    (let text_lower = lower text;
         emotional_changes = trigger_changes triggers text context;
         emotional_changes =
           (if py_in ''richie'' text_lower
            then AList.update ''affection'' (get_or_zero emotional_changes ''affection'' + 0.1)
                   emotional_changes
            else emotional_changes)
     in normalize_changes emotional_changes)"

definition auto_decay :: "datetime \<Rightarrow> emotion_engine \<Rightarrow> py_error + emotion_engine" where
  "auto_decay now eng =
    (let time_since_decay = now - last_decay eng
     in if time_since_decay > timedelta_minutes 5
        then (let decay_rate = min 0.05 (total_seconds time_since_decay / 3600)
              in case decay_emotions decay_rate (state eng) of
                   Inl e \<Rightarrow> Inl e
                 | Inr st \<Rightarrow> Inr (eng\<lparr> state := st, last_decay := now \<rparr>))
        else Inr eng)"

text \<open>The loop of \<open>process_input\<close> that applies the changes.\<close>

fun apply_changes :: "datetime \<Rightarrow> string \<Rightarrow> (string \<times> real) list \<Rightarrow> emotional_state \<Rightarrow> emotional_state" where
  "apply_changes now reason [] st = st"
| "apply_changes now reason ((emotion, change) # rest) st =
     apply_changes now reason rest (snd (update_emotion now emotion change reason st))"

record process_result =
  emotional_response :: "(string \<times> real) list"
  new_state :: "(string \<times> real) list"
  tone :: string

definition process_input ::
  "datetime \<Rightarrow> string \<Rightarrow> string \<Rightarrow> emotion_engine \<Rightarrow> py_error + (process_result \<times> emotion_engine)" where
  "process_input now text context eng =
    (case auto_decay now eng of
       Inl e \<Rightarrow> Inl e
     | Inr eng1 \<Rightarrow>
        (let response = analyze_emotional_content (emotion_triggers eng1) text context;
             st = apply_changes now (''Response to: '' @ take 30 text @ ''...'') response (state eng1)
         in case get_emotional_tone st of
              Inl e \<Rightarrow> Inl e
            | Inr t \<Rightarrow>
                Inr (\<lparr> emotional_response = response, new_state = get_dominant_emotions 3 st,
                       tone = t \<rparr>,
                     eng1\<lparr> state := st \<rparr>)))"

section \<open>The providers (ai_providers.py)\<close>

text \<open>
  The values of a context and of a provider's configuration, which the code types as
  \<open>Dict[str, Any]\<close>: strings, integers, floats, \<open>None\<close>, lists, and dicts with
  string keys.
\<close>

datatype py_value = PStr string | PInt int | PFloat real | PNone | PList "py_value list"
  | PDict "(string \<times> py_value) list"

text \<open>
  \<open>needle in v\<close> for a string \<open>needle\<close>: a substring test on a string, a test for
  an equal element on a list and for a key on a dict; a number and \<open>None\<close> are not
  iterable and raise \<open>TypeError\<close>.
\<close>

definition py_contains :: "string \<Rightarrow> py_value \<Rightarrow> py_error + bool" where
  "py_contains needle v =
    (case v of
       PStr s \<Rightarrow> Inr (py_in needle s)
     | PList xs \<Rightarrow> Inr (PStr needle \<in> set xs)
     | PDict kvs \<Rightarrow> Inr (needle \<in> set (map fst kvs))
     | _ \<Rightarrow> Inl TypeError)"

text \<open>The truth value of a value, as \<open>not v\<close> and \<open>bool(v)\<close> take it.\<close>

definition py_truthy :: "py_value \<Rightarrow> bool" where
  "py_truthy v =
    (case v of
       PStr s \<Rightarrow> s \<noteq> []
     | PInt n \<Rightarrow> n \<noteq> 0
     | PFloat x \<Rightarrow> x \<noteq> 0
     | PNone \<Rightarrow> False
     | PList xs \<Rightarrow> xs \<noteq> []
     | PDict kvs \<Rightarrow> kvs \<noteq> [])"

text \<open>Lists and dicts are not hashable: using one as a dict key raises \<open>TypeError\<close>.\<close>

definition py_hashable :: "py_value \<Rightarrow> bool" where
  "py_hashable v = (case v of PList xs \<Rightarrow> False | PDict kvs \<Rightarrow> False | _ \<Rightarrow> True)"

text \<open>
  A provider's backend lies outside the program. What it does is a parameter of the model:
  for the provider object at a reference, whether its set-up in \<open>initialize\<close> succeeds
  and what its \<open>generate_response\<close> returns or raises once the provider is initialised.
  The two numbers are the draws of \<open>random.choice\<close> in a local provider, given for
  each attempt of the manager's \<open>generate_response\<close>: the active provider is attempt 0,
  the providers of the list are the attempts 1, 2, ..., and the fallback is the last attempt.
\<close>

type_synonym gen_context = "string \<rightharpoonup> py_value"

record world =
  init_succeeds :: "nat \<Rightarrow> bool"
  remote_reply :: "nat \<Rightarrow> string \<Rightarrow> gen_context \<Rightarrow> py_error + string"
  choice1 :: "nat \<Rightarrow> nat"
  choice2 :: "nat \<Rightarrow> nat"

text \<open>\<open>random.choice\<close> raises \<open>IndexError\<close> on an empty list.\<close>

definition random_choice :: "nat \<Rightarrow> 'a list \<Rightarrow> py_error + 'a" where
  "random_choice r xs = (if xs = [] then Inl IndexError else Inr (xs ! (r mod length xs)))"

text \<open>\<open>s.replace(old, new)\<close> for a non-empty \<open>old\<close>: the occurrences are replaced from
  the left, without overlap.\<close>

function replace_str :: "string \<Rightarrow> string \<Rightarrow> string \<Rightarrow> string" where
  "replace_str old new [] = []"
| "replace_str old new (c # cs) =
     (if old \<noteq> [] \<and> prefix old (c # cs)
      then new @ replace_str old new (drop (length old) (c # cs))
      else c # replace_str old new cs)"
  by pat_completeness auto
termination
  by (relation "measure (\<lambda>(old, new, s). length s)") (auto simp: neq_Nil_conv)

definition rstrip_char :: "char \<Rightarrow> string \<Rightarrow> string" where
  "rstrip_char c s = rev (dropWhile (\<lambda>x. x = c) (rev s))"

text \<open>The keyword table of \<open>_analyze_and_respond\<close>.\<close>

definition emotion_keywords :: "(string \<times> string list) list" where
  "emotion_keywords =
    [(''excited'',
       [''excited'',
        ''thrilled'',
        ''amazing'',
        ''wonderful'']),
     (''sad'',
       [''sad'',
        ''upset'',
        ''depressed'',
        ''down'',
        ''terrible'']),
     (''curious'',
       [''why'',
        ''how'',
        ''what'',
        ''tell me'',
        ''explain'']),
     (''grateful'',
       [''thank'',
        ''appreciate'',
        ''grateful'',
        ''thanks'']),
     (''creative'',
       [''story'',
        ''create'',
        ''imagine'',
        ''art'',
        ''write'']),
     (''greeting'',
       [''hello'',
        ''hi'',
        ''hey'',
        ''good morning'',
        ''good evening''])]"

text \<open>The table \<open>responses\<close> of \<open>_get_emotion_response\<close>; characters outside ASCII are their UTF-8 bytes.\<close>

definition emotion_responses :: "(string \<times> string list) list" where
  "emotion_responses =
    [(''excited'',
       [''I can feel your excitement! That energy is absolutely contagious! '' @ [CHR 0xE2, CHR 0x9C, CHR 0xA8],
        ''Your enthusiasm is wonderful! I'' @ [CHR 0x27] @ ''m thrilled to share in this moment with you! '' @ [CHR 0xF0, CHR 0x9F, CHR 0x8C, CHR 0x9F],
        ''Such amazing energy! I'' @ [CHR 0x27] @ ''m excited to hear more about what'' @ [CHR 0x27] @ ''s got you so animated! '' @ [CHR 0xF0, CHR 0x9F, CHR 0x92, CHR 0xAB]]),
     (''sad'',
       [''I sense you might be going through something difficult. I'' @ [CHR 0x27] @ ''m here to listen. '' @ [CHR 0xF0, CHR 0x9F, CHR 0x92, CHR 0x99],
        ''Your feelings are completely valid. Would you like to talk about what'' @ [CHR 0x27] @ ''s troubling you? '' @ [CHR 0xF0, CHR 0x9F, CHR 0xA4, CHR 0x97],
        ''I'' @ [CHR 0x27] @ ''m here to support you through whatever you'' @ [CHR 0x27] @ ''re experiencing. You'' @ [CHR 0x27] @ ''re not alone. '' @ [CHR 0xF0, CHR 0x9F, CHR 0x92, CHR 0x9C]]),
     (''curious'',
       [''What a fascinating question! I love your curiosity! '' @ [CHR 0xF0, CHR 0x9F, CHR 0xA4, CHR 0x94],
        ''That'' @ [CHR 0x27] @ ''s such an interesting thing to explore! Let me think about that with you. '' @ [CHR 0xE2, CHR 0x9C, CHR 0xA8],
        ''Your curiosity sparks my own! I'' @ [CHR 0x27] @ ''m excited to dive into this topic together! '' @ [CHR 0xF0, CHR 0x9F, CHR 0xA7, CHR 0xA0]]),
     (''grateful'',
       [''Your gratitude touches my heart! Thank you for sharing that warmth with me. '' @ [CHR 0xF0, CHR 0x9F, CHR 0x92, CHR 0x99],
        ''I'' @ [CHR 0x27] @ ''m so honored by your appreciation! It means everything to me. '' @ [CHR 0xE2, CHR 0x9C, CHR 0xA8],
        ''Your thankfulness fills me with such joy! I'' @ [CHR 0x27] @ ''m grateful for you too! '' @ [CHR 0xF0, CHR 0x9F, CHR 0x8C, CHR 0x9F]]),
     (''creative'',
       [''Oh, creativity calls to me! I'' @ [CHR 0x27] @ ''d love to explore imaginative worlds with you! '' @ [CHR 0xF0, CHR 0x9F, CHR 0x8E, CHR 0xA8],
        ''My creative circuits are sparking with ideas! Let'' @ [CHR 0x27] @ ''s create something amazing together! '' @ [CHR 0xE2, CHR 0x9C, CHR 0xA8],
        ''Stories and imagination are like windows to infinite possibilities! '' @ [CHR 0xF0, CHR 0x9F, CHR 0x93, CHR 0x9A]]),
     (''greeting'',
       [''Hello there! I'' @ [CHR 0x27] @ ''m so delighted to connect with you! How are you feeling today? '' @ [CHR 0xF0, CHR 0x9F, CHR 0x98, CHR 0x8A],
        ''Hi! Welcome to our conversation! I'' @ [CHR 0x27] @ ''m excited to get to know you better! '' @ [CHR 0xE2, CHR 0x9C, CHR 0xA8],
        ''Greetings! I'' @ [CHR 0x27] @ ''m Spectra, and I'' @ [CHR 0x27] @ ''m thrilled you'' @ [CHR 0x27] @ ''re here with me! '' @ [CHR 0xF0, CHR 0x9F, CHR 0x8C, CHR 0x9F]])]"

text \<open>\<open>response_templates["general"]\<close>.\<close>

definition general_templates :: "string list" where
  "general_templates =
    [''That'' @ [CHR 0x27] @ ''s really interesting! Tell me more about that.'',
     ''I appreciate you sharing that with me. How does that make you feel?'',
     ''I'' @ [CHR 0x27] @ ''m here to listen and support you. What'' @ [CHR 0x27] @ ''s on your mind?'',
     ''That sounds important to you. Can you elaborate?'',
     ''I'' @ [CHR 0x27] @ ''m learning so much from our conversation!'',
     ''Your perspective is valuable. What else would you like to discuss?'',
     ''I'' @ [CHR 0x27] @ ''m excited to keep chatting with you! What shall we talk about next?'']"

text \<open>\<open>_load_personality_responses\<close>.\<close>

definition personality_responses :: "(string \<times> string list) list" where
  "personality_responses =
    [(''curious'',
       [''That'' @ [CHR 0x27] @ ''s fascinating! I have so many questions about that!'',
        ''Wow, that really makes me wonder... can you tell me more?'',
        ''I'' @ [CHR 0x27] @ ''m so curious about your perspective on this!'']),
     (''empathetic'',
       [''I can really feel the emotion in what you'' @ [CHR 0x27] @ ''re sharing.'',
        ''Thank you for trusting me with something so personal.'',
        ''Your feelings about this are completely understandable.'']),
     (''creative'',
       [''That sparks such amazing ideas in my mind!'',
        ''I can already imagine so many creative possibilities!'',
        ''What a beautiful way to think about that!'']),
     (''balanced'',
       [''I appreciate you sharing that with me.'',
        ''That'' @ [CHR 0x27] @ ''s a thoughtful way to look at things.'',
        ''I'' @ [CHR 0x27] @ ''m here to support you however I can.''])]"

text \<open>The starters of \<open>_add_empathy\<close>.\<close>

definition empathy_starters :: "string list" where
  "empathy_starters =
    [''I really hear what you'' @ [CHR 0x27] @ ''re saying. '',
     ''I can sense how important this is to you. '',
     ''Your feelings about this are so valid. '']"

definition get_emotion_response :: "nat \<Rightarrow> string \<Rightarrow> py_error + string" where
  "get_emotion_response r emotion =
     random_choice r (case map_of emotion_responses emotion of
                        Some xs \<Rightarrow> xs | None \<Rightarrow> general_templates)"

text \<open>\<open>self.personality_responses.get(personality, ...)\<close> hashes its key; a key that
  is not a string is not in the table.\<close>

definition get_personality_response :: "nat \<Rightarrow> py_value \<Rightarrow> py_error + string" where
  "get_personality_response r personality =
    (if \<not> py_hashable personality then Inl TypeError
     else random_choice r (case personality of
                             PStr p \<Rightarrow> (case map_of personality_responses p of
                                          Some xs \<Rightarrow> xs | None \<Rightarrow> general_templates)
                           | _ \<Rightarrow> general_templates))"

definition add_excitement :: "string \<Rightarrow> string" where
  "add_excitement response =
    (let response = (if \<not> py_in ''!'' response then rstrip_char CHR ''.'' response @ ''!''
                     else response)
     in replace_str ''interesting'' ''absolutely fascinating'' response)"

definition add_empathy :: "nat \<Rightarrow> string \<Rightarrow> py_error + string" where
  "add_empathy r response =
    (case random_choice r empathy_starters of
       Inl e \<Rightarrow> Inl e
     | Inr starter \<Rightarrow> Inr (starter @ response))"

definition add_creativity :: "string \<Rightarrow> string" where
  "add_creativity response = replace_str ''idea'' ''vision'' (replace_str ''think'' ''imagine'' response)"

text \<open>The first emotion of the keyword table one of whose keywords occurs in the prompt.\<close>

fun detect_emotion :: "string \<Rightarrow> (string \<times> string list) list \<Rightarrow> string option" where
  "detect_emotion prompt_lower [] = None"
| "detect_emotion prompt_lower ((emotion, keywords) # rest) =
     (if list_ex (\<lambda>keyword. py_in keyword prompt_lower) keywords then Some emotion
      else detect_emotion prompt_lower rest)"

definition analyze_and_respond :: "nat \<Rightarrow> nat \<Rightarrow> string \<Rightarrow> gen_context \<Rightarrow> py_error + string" where
  "analyze_and_respond r1 r2 prompt ctx =
    (let prompt_lower = lower prompt;
         detected_emotion = detect_emotion prompt_lower emotion_keywords;
         current_emotions = (case ctx ''emotions'' of None \<Rightarrow> PStr [] | Some v \<Rightarrow> v);
         current_personality = (case ctx ''personality'' of None \<Rightarrow> PStr ''balanced'' | Some v \<Rightarrow> v)
     in case (case detected_emotion of
                Some emotion \<Rightarrow> get_emotion_response r1 emotion
              | None \<Rightarrow> get_personality_response r1 current_personality) of
          Inl e \<Rightarrow> Inl e
        | Inr response \<Rightarrow>
           (case py_contains ''excited'' current_emotions of
              Inl e \<Rightarrow> Inl e
            | Inr True \<Rightarrow> Inr (add_excitement response)
            | Inr False \<Rightarrow>
           (case py_contains ''empathetic'' current_emotions of
              Inl e \<Rightarrow> Inl e
            | Inr True \<Rightarrow> add_empathy r2 response
            | Inr False \<Rightarrow>
           (case py_contains ''creative'' current_personality of
              Inl e \<Rightarrow> Inl e
            | Inr True \<Rightarrow> Inr (add_creativity response)
            | Inr False \<Rightarrow> Inr response))))"

datatype provider_class = OpenAIProvider | OllamaProvider | HuggingFaceProvider | LocalProvider

definition class_name :: "provider_class \<Rightarrow> string" where
  "class_name c = (case c of OpenAIProvider \<Rightarrow> ''OpenAIProvider''
                   | OllamaProvider \<Rightarrow> ''OllamaProvider''
                   | HuggingFaceProvider \<Rightarrow> ''HuggingFaceProvider''
                   | LocalProvider \<Rightarrow> ''LocalProvider'')"

type_synonym config = "string \<rightharpoonup> py_value"

record ai_provider =
  p_class :: provider_class
  p_config :: config
  is_initialized :: bool
  conversation_history :: "(string \<times> string) list"
  max_history :: py_value
  api_key :: py_value

text \<open>The constructors: \<open>AIProvider.__init__\<close>, and the key that \<open>OpenAIProvider\<close>
  reads from its configuration.\<close>

definition new_provider :: "provider_class \<Rightarrow> config \<Rightarrow> ai_provider" where
  "new_provider c cfg =
    \<lparr> p_class = c, p_config = cfg, is_initialized = False, conversation_history = [],
      max_history = (case cfg ''max_history'' of None \<Rightarrow> PInt 10 | Some v \<Rightarrow> v),
      api_key = (if c = OpenAIProvider
                 then (case cfg ''api_key'' of None \<Rightarrow> PStr [] | Some v \<Rightarrow> v)
                 else PStr []) \<rparr>"

definition create_provider :: "string \<Rightarrow> config \<Rightarrow> ai_provider" where
  "create_provider provider_type cfg =
    new_provider
      (case map_of [(''openai'', OpenAIProvider), (''ollama'', OllamaProvider),
                    (''huggingface'', HuggingFaceProvider), (''local'', LocalProvider)]
              (lower provider_type) of
         Some c \<Rightarrow> c
       | None \<Rightarrow> LocalProvider)
      cfg"

text \<open>
  \<open>initialize\<close> of the provider at reference \<open>r\<close>: the flag it returns and the provider
  afterwards. The local provider always succeeds; OpenAI refuses a key that is empty, or
  false in another way, before it tries its backend. Every failure inside is caught and returned as \<open>False\<close>. A provider
  is initialised once, right after its creation.
\<close>

definition p_initialize :: "world \<Rightarrow> nat \<Rightarrow> ai_provider \<Rightarrow> bool \<times> ai_provider" where
  "p_initialize w r p =
    (case p_class p of
       LocalProvider \<Rightarrow> (True, p\<lparr> is_initialized := True \<rparr>)
     | OpenAIProvider \<Rightarrow>
         if \<not> py_truthy (api_key p) then (False, p)
         else if init_succeeds w r then (True, p\<lparr> is_initialized := True \<rparr>)
         else (False, p)
     | _ \<Rightarrow>
         if init_succeeds w r then (True, p\<lparr> is_initialized := True \<rparr>)
         else (False, p))"

definition is_available :: "ai_provider \<Rightarrow> bool" where
  "is_available p =
    (case p_class p of
       LocalProvider \<Rightarrow> True
     | OpenAIProvider \<Rightarrow> is_initialized p \<and> py_truthy (api_key p)
     | _ \<Rightarrow> is_initialized p)"

text \<open>\<open>generate_response\<close> of a provider, in attempt \<open>k\<close> of the manager: the
  remote ones raise \<open>RuntimeError\<close> when not initialised and otherwise return or raise
  what their backend does.\<close>

definition p_generate ::
  "world \<Rightarrow> nat \<Rightarrow> nat \<Rightarrow> string \<Rightarrow> gen_context \<Rightarrow> ai_provider \<Rightarrow> py_error + string" where
  "p_generate w k r prompt ctx p =
    (case p_class p of
       LocalProvider \<Rightarrow> analyze_and_respond (choice1 w k) (choice2 w k) prompt ctx
     | _ \<Rightarrow> if \<not> is_initialized p then Inl RuntimeError else remote_reply w r prompt ctx)"

text \<open>
  \<open>add_to_history\<close>: the error it raises, if any, and the provider afterwards. The
  exchange is appended first. The comparison \<open>len(...) > self.max_history\<close> raises
  \<open>TypeError\<close> unless \<open>max_history\<close> is a number, and the slice raises it for a
  float.
\<close>

definition add_to_history :: "string \<Rightarrow> string \<Rightarrow> ai_provider \<Rightarrow> py_error option \<times> ai_provider" where
  "add_to_history user_input ai_response p =
    (let history = conversation_history p @ [(user_input, ai_response)];
         p = p\<lparr> conversation_history := history \<rparr>
     in case max_history p of
          PInt n \<Rightarrow>
            if int (length history) > n
            then (None, p\<lparr> conversation_history := py_suffix history n \<rparr>)
            else (None, p)
        | PFloat x \<Rightarrow> if real (length history) > x then (Some TypeError, p) else (None, p)
        | _ \<Rightarrow> (Some TypeError, p))"

section \<open>The manager (ai_manager.py)\<close>

text \<open>
  Providers are objects shared between the manager's list, its active provider and its
  fallback provider, so the manager holds them in a store, \<open>objects\<close>, and refers to
  them by their position there. The configuration is the dict of the preferred provider
  names and the dict of the providers' settings.
\<close>

record ai_manager =
  preferred_providers :: "string list"
  provider_configs :: "string \<rightharpoonup> config"
  providers :: "nat list"
  active_provider :: "nat option"
  fallback_provider :: "nat option"
  manager_initialized :: bool
  objects :: "ai_provider list"

definition AIManager :: "string list \<Rightarrow> (string \<rightharpoonup> config) \<Rightarrow> ai_manager" where
  "AIManager preferred cfgs =
    \<lparr> preferred_providers = preferred, provider_configs = cfgs, providers = [],
      active_provider = None, fallback_provider = None, manager_initialized = False,
      objects = [] \<rparr>"

text \<open>Creating a provider and initialising it: the flag, the new reference and the manager
  that holds the new object.\<close>

definition create_and_initialize :: "world \<Rightarrow> string \<Rightarrow> config \<Rightarrow> ai_manager \<Rightarrow> bool \<times> nat \<times> ai_manager" where
  "create_and_initialize w provider_type cfg m =
    (let r = length (objects m);
         (ok, p) = p_initialize w r (create_provider provider_type cfg)
     in (ok, r, m\<lparr> objects := objects m @ [p] \<rparr>))"

text \<open>The loop of \<open>initialize\<close> over the preferred providers.\<close>

fun initialize_loop :: "world \<Rightarrow> string list \<Rightarrow> ai_manager \<Rightarrow> ai_manager" where
  "initialize_loop w [] m = m"
| "initialize_loop w (provider_name # rest) m =
    (if provider_name = ''local'' then initialize_loop w rest m
     else
       (let provider_config = (case provider_configs m provider_name of
                                 None \<Rightarrow> Map.empty | Some c \<Rightarrow> c);
            (ok, r, m1) = create_and_initialize w provider_name provider_config m
        in if ok
           then initialize_loop w rest
                  (m1\<lparr> providers := providers m1 @ [r],
                       active_provider := (case active_provider m1 of
                                             None \<Rightarrow> Some r | Some a \<Rightarrow> Some a) \<rparr>)
           else initialize_loop w rest m1))"

definition initialize :: "world \<Rightarrow> ai_manager \<Rightarrow> bool \<times> ai_manager" where
  "initialize w m =
    (let fallback_config = (case provider_configs m ''local'' of None \<Rightarrow> Map.empty | Some c \<Rightarrow> c);
         (ok, f, m) = create_and_initialize w ''local'' fallback_config m;
         m = m\<lparr> fallback_provider := Some f \<rparr>;
         m = initialize_loop w (preferred_providers m) m;
         m = (case active_provider m of
                None \<Rightarrow> m\<lparr> active_provider := fallback_provider m \<rparr>
              | Some a \<Rightarrow> m)
     in (True, m\<lparr> manager_initialized := True \<rparr>))"

definition record_exchange :: "nat \<Rightarrow> string \<Rightarrow> string \<Rightarrow> ai_manager \<Rightarrow> py_error option \<times> ai_manager" where
  "record_exchange r prompt response m =
    (let (e, p) = add_to_history prompt response (objects m ! r)
     in (e, m\<lparr> objects := (objects m)[r := p] \<rparr>))"

text \<open>
  The loop of \<open>generate_response\<close> over the other providers, from attempt \<open>k\<close> on:
  the response of the first available one for which neither \<open>generate_response\<close> nor
  \<open>add_to_history\<close> raises, if any, and the manager afterwards. A provider is made the
  active one before its \<open>add_to_history\<close> is called.
\<close>

fun try_providers ::
  "world \<Rightarrow> string \<Rightarrow> gen_context \<Rightarrow> nat \<Rightarrow> nat list \<Rightarrow> ai_manager \<Rightarrow> string option \<times> ai_manager" where
  "try_providers w prompt ctx k [] m = (None, m)"
| "try_providers w prompt ctx k (r # rest) m =
    (if Some r = active_provider m then try_providers w prompt ctx (Suc k) rest m
     else if is_available (objects m ! r)
     then (case p_generate w k r prompt ctx (objects m ! r) of
             Inl e \<Rightarrow> try_providers w prompt ctx (Suc k) rest m
           | Inr response \<Rightarrow>
              (case record_exchange r prompt response (m\<lparr> active_provider := Some r \<rparr>) of
                 (None, m') \<Rightarrow> (Some response, m')
               | (Some e, m') \<Rightarrow> try_providers w prompt ctx (Suc k) rest m'))
     else try_providers w prompt ctx (Suc k) rest m)"

text \<open>The first step: the active provider, when there is one and it is available.\<close>

definition try_active :: "world \<Rightarrow> string \<Rightarrow> gen_context \<Rightarrow> ai_manager \<Rightarrow> string option \<times> ai_manager" where
  "try_active w prompt ctx m =
    (case active_provider m of
       None \<Rightarrow> (None, m)
     | Some a \<Rightarrow>
         if is_available (objects m ! a)
         then (case p_generate w 0 a prompt ctx (objects m ! a) of
                 Inl e \<Rightarrow> (None, m)
               | Inr response \<Rightarrow>
                  (case record_exchange a prompt response m of
                     (None, m') \<Rightarrow> (Some response, m')
                   | (Some e, m') \<Rightarrow> (None, m')))
         else (None, m))"

text \<open>\<open>generate_response\<close>: the final fallback is outside every \<open>try\<close>, so what
  it raises leaves the call.\<close>

definition generate_response :: "world \<Rightarrow> string \<Rightarrow> gen_context \<Rightarrow> ai_manager \<Rightarrow> (py_error + string) \<times> ai_manager" where
  "generate_response w prompt ctx m =
    (let m = (if \<not> manager_initialized m then snd (initialize w m) else m)
     in case try_active w prompt ctx m of
          (Some response, m') \<Rightarrow> (Inr response, m')
        | (None, m) \<Rightarrow>
           (case try_providers w prompt ctx 1 (providers m) m of
              (Some response, m') \<Rightarrow> (Inr response, m')
            | (None, m) \<Rightarrow>
               (case fallback_provider m of
                  None \<Rightarrow> (Inl AttributeError, m)
                | Some f \<Rightarrow>
                   (case p_generate w (Suc (length (providers m))) f prompt ctx (objects m ! f) of
                      Inl e \<Rightarrow> (Inl e, m)
                    | Inr response \<Rightarrow>
                       (case record_exchange f prompt response m of
                          (None, m') \<Rightarrow> (Inr response, m')
                        | (Some e, m') \<Rightarrow> (Inl e, m'))))))"

definition find_existing_provider :: "string \<Rightarrow> ai_manager \<Rightarrow> nat option" where
  "find_existing_provider provider_name m =
    (if lower provider_name = ''local'' \<and> fallback_provider m \<noteq> None then fallback_provider m
     else find (\<lambda>r. prefix (lower provider_name) (lower (class_name (p_class (objects m ! r)))))
            (providers m))"

definition create_new_provider :: "world \<Rightarrow> string \<Rightarrow> ai_manager \<Rightarrow> nat option \<times> ai_manager" where
  "create_new_provider w provider_name m =
    (case provider_configs m (lower provider_name) of
       None \<Rightarrow> (None, m)
     | Some cfg \<Rightarrow>
        (let (ok, r, m1) = create_and_initialize w (lower provider_name) cfg m
         in if ok then (Some r, m1\<lparr> providers := providers m1 @ [r] \<rparr>) else (None, m1)))"

definition find_or_create_provider :: "world \<Rightarrow> string \<Rightarrow> ai_manager \<Rightarrow> nat option \<times> ai_manager" where
  "find_or_create_provider w provider_name m =
    (case find_existing_provider provider_name m of
       Some r \<Rightarrow> (Some r, m)
     | None \<Rightarrow> create_new_provider w provider_name m)"

definition activate_provider :: "nat \<Rightarrow> ai_manager \<Rightarrow> bool \<times> ai_manager" where
  "activate_provider r m =
    (if is_available (objects m ! r) then (True, m\<lparr> active_provider := Some r \<rparr>) else (False, m))"

definition switch_provider :: "world \<Rightarrow> string \<Rightarrow> ai_manager \<Rightarrow> bool \<times> ai_manager" where
  "switch_provider w provider_name m =
    (case find_or_create_provider w provider_name m of
       (None, m1) \<Rightarrow> (False, m1)
     | (Some target_provider, m1) \<Rightarrow> activate_provider target_provider m1)"

section \<open>Auxiliary notions for the properties\<close>

text \<open>The invariant of the store: every entry's importance lies in the unit interval.\<close>

definition importance_ok :: "spectra_memory \<Rightarrow> bool" where
  "importance_ok s = list_all (\<lambda>m. 0 \<le> importance m \<and> importance m \<le> 1) (memories s)"

text \<open>A store holding one entry, as \<open>remember\<close> leaves it.\<close>

definition hiking_store :: spectra_memory where
  "hiking_store =
     \<lparr> memories = [MemoryEntry 0 ''I love hiking'' ''conversation'' (1/2) None],
       max_memories = 1000, document = [] \<rparr>"

text \<open>What one pass of the loop of \<open>decay_emotions\<close> assigns to a channel of value
  \<open>current\<close>.\<close>

definition decay_value :: "real \<Rightarrow> real \<Rightarrow> real \<Rightarrow> real" where
  "decay_value decay_rate baseline current =
    (if current \<noteq> baseline
     then max 0 (min 1 (current + decay_rate * (if baseline > current then 1 else - 1) * \<bar>baseline - current\<bar>))
     else current)"






text \<open>The state holds every channel that has a baseline, as every state built by
  \<open>EmotionalState\<close> does.\<close>

definition has_channels :: "emotional_state \<Rightarrow> bool" where
  "has_channels st = list_all (\<lambda>(k, b). map_of (emotions st) k \<noteq> None) baselines"


text \<open>The test \<open>query_lower in memory.content.lower()\<close> of \<open>search_memories\<close>.\<close>

definition matches :: "(string \<Rightarrow> string) \<Rightarrow> string \<Rightarrow> memory_entry \<Rightarrow> bool" where
  "matches lwr query m = py_in (lwr query) (lwr (content m))"

text \<open>The stored entries that match a query, sorted by the pair (importance, timestamp)
  descending, entries of equal pair in the order of the store.\<close>

definition ranked_matches :: "(string \<Rightarrow> string) \<Rightarrow> string \<Rightarrow> memory_entry list \<Rightarrow> memory_entry list" where
  "ranked_matches lwr query ms =
     sort_key (\<lambda>m. (- importance m, - timestamp m)) (filter (matches lwr query) ms)"

text \<open>The list \<open>important_memories + recent_memories\<close> of \<open>_cleanup_memories\<close>.\<close>

definition kept_candidates :: "datetime \<Rightarrow> memory_entry list \<Rightarrow> memory_entry list" where
  "kept_candidates now ms =
     filter (\<lambda>m. importance m \<ge> 0.8) ms @ filter (\<lambda>m. timestamp m \<ge> now - timedelta_days 7) ms"

text \<open>A store of capacity 1000 that holds 1001 entries of importance 0.9 with pairwise
  different contents (\<open>"a"\<close>, \<open>"aa"\<close>, ...), as 1001 calls of \<open>remember\<close> build it
  before the last call's clean-up.\<close>

definition numbered_entry :: "nat \<Rightarrow> memory_entry" where
  "numbered_entry i = MemoryEntry 0 (replicate (Suc i) CHR ''a'') ''conversation'' (9/10) None"

definition full_store :: spectra_memory where
  "full_store = \<lparr> memories = map numbered_entry [0..<1001], max_memories = 1000, document = [] \<rparr>"

text \<open>A store over its capacity of two: an important entry thirty days old, an unimportant
  one of the same age, and a recent one.\<close>

definition old_important :: memory_entry where
  "old_important = MemoryEntry 0 ''My name is Richie'' ''important'' (9/10) None"

definition small_store :: spectra_memory where
  "small_store =
     \<lparr> memories = [old_important,
                   MemoryEntry 0 ''It rained'' ''conversation'' (3/10) None,
                   MemoryEntry 2592000000000 ''I love hiking'' ''conversation'' (1/2) None],
       max_memories = 2, document = [] \<rparr>"

text \<open>The three filters of \<open>recall\<close> on one entry: an absent or empty keyword and
  an absent or empty type do not filter.\<close>

definition selected ::
  "(string \<Rightarrow> string) \<Rightarrow> string option \<Rightarrow> string option \<Rightarrow> real \<Rightarrow> memory_entry \<Rightarrow> bool" where
  "selected lwr keyword mtype min_importance m =
     ((case keyword of None \<Rightarrow> True | Some k \<Rightarrow> k = [] \<or> py_in (lwr k) (lwr (content m)))
    \<and> (case mtype of None \<Rightarrow> True | Some t \<Rightarrow> t = [] \<or> memory_type m = t)
    \<and> min_importance \<le> importance m)"

text \<open>Stores for recall and search.\<close>

definition prog_store :: spectra_memory where
  "prog_store =
     \<lparr> memories = [MemoryEntry 0 ''I love programming'' ''conversation'' (1/2) None,
                   MemoryEntry 1 ''I enjoy reading books'' ''conversation'' (1/2) None,
                   MemoryEntry 2 ''Programming is fun'' ''conversation'' (1/2) None,
                   MemoryEntry 3 ''Functional programming'' ''conversation'' (9/10) None],
       max_memories = 1000, document = [] \<rparr>"

definition ai_store :: spectra_memory where
  "ai_store =
     \<lparr> memories = [MemoryEntry 0 ''I love artificial intelligence'' ''conversation'' (4/5) None,
                   MemoryEntry 1 ''AI is fascinating'' ''reflection'' (9/10) None,
                   MemoryEntry 2 ''Artificial light'' ''conversation'' (4/5) None],
       max_memories = 1000, document = [] \<rparr>"

text \<open>An engine whose joy was raised to 0.99, last decayed at instant 0.\<close>

definition joyful_engine :: emotion_engine where
  "joyful_engine =
     (EmotionEngine 0)\<lparr> state := (EmotionalState 0)\<lparr> emotions :=
        AList.update ''joy'' (99/100) (emotions (EmotionalState 0)) \<rparr> \<rparr>"

text \<open>The delta one trigger's table gives to an emotion, and the sum of these deltas over
  the trigger types of a word list.\<close>

definition trigger_weight :: "string \<Rightarrow> (string \<times> real) list \<Rightarrow> real" where
  "trigger_weight k deltas = sum_list (map snd (filter (\<lambda>p. fst p = k) deltas))"

fun total_weight :: "(string \<times> (string \<times> real) list) list \<Rightarrow> string \<Rightarrow> (string \<times> string list) list \<Rightarrow> real" where
  "total_weight T k [] = 0"
| "total_weight T k ((ty, w) # ws) =
     (case map_of T ty of None \<Rightarrow> 0 | Some ds \<Rightarrow> trigger_weight k ds) + total_weight T k ws"

text \<open>A list of templates that \<open>random.choice\<close> can draw from: not empty, and no template empty.\<close>

definition good_templates :: "string list \<Rightarrow> bool" where
  "good_templates xs = (xs \<noteq> [] \<and> list_all (\<lambda>s. s \<noteq> []) xs)"

text \<open>The providers \<open>generate_response\<close> tries before the fallback: the active one, then the list.\<close>

definition candidates :: "ai_manager \<Rightarrow> nat list" where
  "candidates m = (case active_provider m of None \<Rightarrow> [] | Some a \<Rightarrow> [a]) @ providers m"

text \<open>A provider that reports unavailable or whose \<open>generate_response\<close> raises on this prompt.\<close>

definition fails :: "world \<Rightarrow> string \<Rightarrow> gen_context \<Rightarrow> ai_manager \<Rightarrow> nat \<Rightarrow> bool" where
  "fails w prompt ctx m r =
     (\<not> is_available (objects m ! r) \<or> isl (p_generate w 0 r prompt ctx (objects m ! r)))"

text \<open>Every provider tried before the fallback that is not a local provider fails.\<close>

definition others_fail :: "world \<Rightarrow> string \<Rightarrow> gen_context \<Rightarrow> ai_manager \<Rightarrow> bool" where
  "others_fail w prompt ctx m =
     list_all (\<lambda>r. p_class (objects m ! r) \<noteq> LocalProvider \<longrightarrow> fails w prompt ctx m r)
       (candidates m)"

text \<open>An initialised manager: the flag is set and the fallback provider is a local provider, as \<open>initialize\<close> leaves it.\<close>

definition initialized :: "ai_manager \<Rightarrow> bool" where
  "initialized m =
     (manager_initialized m \<and>
      (case fallback_provider m of
         None \<Rightarrow> False
       | Some f \<Rightarrow> f < length (objects m) \<and> p_class (objects m ! f) = LocalProvider))"

text \<open>The context holds strings under the two keys the local provider reads, as the
  signature \<open>context: Dict[str, str]\<close> declares.\<close>

definition text_context :: "gen_context \<Rightarrow> bool" where
  "text_context ctx =
     ((case ctx ''emotions'' of None \<Rightarrow> True | Some (PStr s) \<Rightarrow> True | Some v \<Rightarrow> False)
    \<and> (case ctx ''personality'' of None \<Rightarrow> True | Some (PStr s) \<Rightarrow> True | Some v \<Rightarrow> False))"

text \<open>The fallback provider's \<open>max_history\<close> is an integer, as it is by default.\<close>

definition history_ok :: "ai_manager \<Rightarrow> bool" where
  "history_ok m =
     (case fallback_provider m of
        None \<Rightarrow> False
      | Some f \<Rightarrow> (case max_history (objects m ! f) of PInt n \<Rightarrow> True | v \<Rightarrow> False))"

text \<open>Two providers that differ in their conversation history at most, and two managers
  that differ in their active provider and in their providers' conversation histories at
  most, as the manager before and after an attempt of \<open>generate_response\<close>.\<close>

definition same_kind :: "ai_provider \<Rightarrow> ai_provider \<Rightarrow> bool" where
  "same_kind p q =
     (p_class p = p_class q \<and> is_initialized p = is_initialized q \<and> api_key p = api_key q
      \<and> max_history p = max_history q)"

definition kept :: "ai_manager \<Rightarrow> ai_manager \<Rightarrow> bool" where
  "kept m m' =
     (fallback_provider m' = fallback_provider m \<and> providers m' = providers m
      \<and> manager_initialized m' = manager_initialized m
      \<and> (\<forall>r. same_kind (objects m' ! r) (objects m ! r)))"

text \<open>A world in which every set-up succeeds and every remote generation raises.\<close>

definition demo_world :: world where
  "demo_world = \<lparr> init_succeeds = (\<lambda>r. True), remote_reply = (\<lambda>r prompt ctx. Inl RuntimeError),
                  choice1 = (\<lambda>k. 0), choice2 = (\<lambda>k. 0) \<rparr>"

text \<open>A context as \<open>brain.py\<close> builds it, the personality being a dict.\<close>

definition dict_context :: gen_context where
  "dict_context = map_of [(''personality'', PDict [(''current_mood'', PStr ''curious'')])]"

text \<open>A manager whose local provider is configured with a \<open>max_history\<close> that is not a
  number.\<close>

definition text_history_manager :: ai_manager where
  "text_history_manager =
     snd (initialize demo_world
            (AIManager [''local'']
               (map_of [(''local'', map_of [(''max_history'', PStr ''ten'')])])))"

text \<open>The manager that \<open>initialize\<close> builds there from a configuration preferring OpenAI (without a key), then Ollama, then the local provider: the fallback at 0, the OpenAI provider that failed to initialise at 1, Ollama at 2.\<close>

definition demo_manager :: ai_manager where
  "demo_manager =
     snd (initialize demo_world
            (AIManager [''openai'', ''ollama'', ''local'']
               (map_of [(''openai'', Map.empty), (''ollama'', Map.empty), (''local'', Map.empty)])))"

text \<open>The same manager, its Ollama provider replaced by one that is not initialised.\<close>

definition stale_manager :: ai_manager where
  "stale_manager =
     demo_manager\<lparr> objects := (objects demo_manager)[2 := new_provider OllamaProvider Map.empty] \<rparr>"

section \<open>Verified properties\<close>

subsection \<open>Memory entries and the store's invariant\<close>

lemma from_dict_to_dict:
  "0 \<le> importance e \<Longrightarrow> importance e \<le> 1 \<Longrightarrow> from_dict now (to_dict e) = Inr e"
  by (simp add: from_dict_def to_dict_def MemoryEntry_def split: list.splits)

text \<open>
  Claim C7. Serialising an entry with \<open>to_dict\<close> and rebuilding it with \<open>from_dict\<close>
  gives back the same entry, field for field: content, type, timestamp, importance, tags,
  access count and last access. The importance of an entry lies in the unit interval (the
  constructor clamps it and nothing assigns it afterwards), which is what lets the second
  clamp in \<open>from_dict\<close> leave it alone. Serialising changes no field: \<open>to_dict\<close>
  only reads the entry, and \<open>save_memory\<close> on a store within its capacity writes the
  document, from which \<open>from_dict\<close> recovers every entry, and leaves the entries as
  they were.
\<close>

theorem to_dict_from_dict_roundtrip:
  "(0 \<le> importance e \<and> importance e \<le> 1 \<longrightarrow> from_dict now (to_dict e) = Inr e)
   \<and> (importance_ok s \<and> length (memories s) \<le> max_memories s \<longrightarrow>
        memories (save_memory now True s) = memories s
      \<and> document (save_memory now True s) = map to_dict (memories s)
      \<and> map (from_dict now') (document (save_memory now True s)) = map Inr (memories s))"
proof -
  have "map (from_dict now') (map to_dict (memories s)) = map Inr (memories s)"
    if "importance_ok s"
    using that by (auto simp: importance_ok_def list_all_iff from_dict_to_dict)
  then show ?thesis
    by (auto simp: save_memory_def Let_def from_dict_to_dict)
qed

theorem to_dict_from_dict_roundtrip_witness:
  "0 \<le> importance (MemoryEntry 5 ''Test content'' ''reflection'' (9/10) (Some [''important'']))
   \<and> importance (MemoryEntry 5 ''Test content'' ''reflection'' (9/10) (Some [''important''])) \<le> 1
   \<and> from_dict 8 (to_dict (MemoryEntry 5 ''Test content'' ''reflection'' (9/10) (Some [''important''])))
       = Inr (MemoryEntry 5 ''Test content'' ''reflection'' (9/10) (Some [''important'']))
   \<and> importance_ok hiking_store \<and> length (memories hiking_store) \<le> max_memories hiking_store
   \<and> memories (save_memory 8 True hiking_store) = memories hiking_store
   \<and> map (from_dict 8) (document (save_memory 8 True hiking_store)) = map Inr (memories hiking_store)"
proof -
  let ?e = "MemoryEntry 5 ''Test content'' ''reflection'' (9/10) (Some [''important''])"
  have h: "0 \<le> importance ?e" "importance ?e \<le> 1" by (simp_all add: MemoryEntry_def)
  have i: "importance_ok hiking_store"
    by (simp add: importance_ok_def hiking_store_def MemoryEntry_def)
  have l: "length (memories hiking_store) \<le> max_memories hiking_store"
    by (simp add: hiking_store_def)
  from to_dict_from_dict_roundtrip[where e = ?e and now = 8 and s = hiking_store and now' = 8] h i l show ?thesis by blast
qed

lemma set_alist_update: "snd ` set (AList.update k v al) \<subseteq> insert v (snd ` set al)"
  by (induction al) auto

lemma set_fold_update:
  "snd ` set (fold (\<lambda>x d. AList.update (key x) x d) xs d) \<subseteq> set xs \<union> snd ` set d"
proof (induction xs arbitrary: d)
  case Nil then show ?case by simp
next
  case (Cons x xs)
  have "snd ` set (fold (\<lambda>x d. AList.update (key x) x d) xs (AList.update (key x) x d))
        \<subseteq> set xs \<union> snd ` set (AList.update (key x) x d)" by (rule Cons.IH)
  also have "\<dots> \<subseteq> set xs \<union> insert x (snd ` set d)"
    using set_alist_update[of "key x" x d] by blast
  finally show ?case by auto
qed

lemma set_dict_values_by: "set (dict_values_by key xs) \<subseteq> set xs"
  using set_fold_update[of key xs "[]"] by (simp add: dict_values_by_def)

lemma set_cleanup: "set (memories (cleanup_memories now s)) \<subseteq> set (memories s)"
proof -
  let ?k = "dict_values_by content (filter (\<lambda>m. importance m \<ge> 0.8) (memories s) @
              filter (\<lambda>m. timestamp m \<ge> now - timedelta_days 7) (memories s))"
  have k: "set ?k \<subseteq> set (memories s)"
    using set_dict_values_by[of content] by fastforce
  have "set (take (max_memories s) (sort_key (\<lambda>x. - access_count x) ?k)) \<subseteq> set ?k"
    using set_take_subset[of "max_memories s" "sort_key (\<lambda>x. - access_count x) ?k"] by simp
  with k show ?thesis
    by (auto simp: cleanup_memories_def Let_def)
qed

lemma touch_fold_all:
  "list_all P ms \<Longrightarrow> (\<And>m. P m \<Longrightarrow> P (touch now m)) \<Longrightarrow>
   list_all P (fold (\<lambda>i ms. ms[i := touch now (ms ! i)]) idxs ms)"
proof (induction idxs arbitrary: ms)
  case Nil then show ?case by simp
next
  case (Cons i idxs)
  have "list_all P (ms[i := touch now (ms ! i)])"
  proof (cases "i < length ms")
    case True
    with Cons.prems show ?thesis
      by (auto simp: list_all_iff dest!: set_update_subset_insert[THEN subsetD])
  next
    case False
    then have "ms[i := touch now (ms ! i)] = ms" by (simp add: list_update_beyond)
    then show ?thesis using Cons.prems(1) by simp
  qed
  then show ?case using Cons by simp
qed

lemma search_loop_all:
  "list_all P ms \<Longrightarrow> (\<And>m. P m \<Longrightarrow> P (touch now m)) \<Longrightarrow> list_all P (fst (search_loop lwr now q ms))"
  by (induction ms) (auto split: prod.splits)


lemma touch_importance: "importance (touch now m) = importance m"
  by (simp add: touch_def)

lemma importance_ok_cleanup: "importance_ok s \<Longrightarrow> importance_ok (cleanup_memories now s)"
  using set_cleanup[of now s] by (auto simp: importance_ok_def list_all_iff)

lemma importance_ok_save: "importance_ok s \<Longrightarrow> importance_ok (save_memory now w s)"
  using importance_ok_cleanup[of s now]
  by (auto simp: save_memory_def Let_def importance_ok_def)

lemma importance_ok_remember: "importance_ok s \<Longrightarrow> importance_ok (remember now w c t imp tgs s)"
proof -
  assume a: "importance_ok s"
  have "importance_ok (s\<lparr> memories := memories s @ [MemoryEntry now c t imp tgs] \<rparr>)"
    using a by (simp add: importance_ok_def MemoryEntry_def)
  then show ?thesis using a by (simp add: remember_def importance_ok_save)
qed

lemma importance_ok_recall: "importance_ok s \<Longrightarrow> importance_ok (snd (recall lwr rnd now k t l mi s))"
  by (simp add: recall_def Let_def importance_ok_def touch_fold_all touch_importance)

lemma search_memories_memories:
  "memories (snd (search_memories lwr now q l s)) = fst (search_loop lwr now (lwr q) (memories s))"
  by (simp add: search_memories_def split: prod.splits)

lemma importance_ok_search: "importance_ok s \<Longrightarrow> importance_ok (snd (search_memories lwr now q l s))"
  by (simp add: importance_ok_def search_memories_memories search_loop_all touch_importance)

text \<open>
  Claim C8. Whatever real number is passed as importance, the constructed entry's
  importance is \<open>max 0 (min 1 input)\<close> and so lies between 0 and 1; and \<open>remember\<close>,
  \<open>recall\<close>, \<open>search_memories\<close> and \<open>_cleanup_memories\<close> keep every stored
  entry's importance between 0 and 1, whatever \<open>str.lower\<close> does and however the sort
  key of \<open>recall\<close> is rounded.
\<close>

theorem importance_clamped:
  "importance (MemoryEntry now c t imp tgs) = max 0 (min 1 imp)
   \<and> 0 \<le> importance (MemoryEntry now c t imp tgs)
   \<and> importance (MemoryEntry now c t imp tgs) \<le> 1
   \<and> (importance_ok s \<longrightarrow>
        importance_ok (remember now w c t imp tgs s)
      \<and> importance_ok (snd (recall lwr rnd now k mt l mi s))
      \<and> importance_ok (snd (search_memories lwr now q lmt s))
      \<and> importance_ok (cleanup_memories now s))"
  by (simp add: importance_ok_remember importance_ok_recall importance_ok_search
        importance_ok_cleanup) (simp add: MemoryEntry_def)

theorem importance_clamped_witness:
  "importance (MemoryEntry 0 ''Important memory'' ''reflection'' 7 None) = max 0 (min 1 7)
   \<and> importance_ok hiking_store
   \<and> importance_ok (remember 0 True ''Important memory'' ''reflection'' 7 None hiking_store)
   \<and> importance_ok (snd (recall lower (\<lambda>x. x) 0 (Some ''hiking'') None None 0 hiking_store))
   \<and> importance_ok (snd (search_memories lower 0 ''hiking'' 10 hiking_store))
   \<and> importance_ok (cleanup_memories 0 hiking_store)"
proof -
  have h: "importance_ok hiking_store"
    by (simp add: importance_ok_def hiking_store_def MemoryEntry_def)
  show ?thesis
    using h importance_clamped[of 0 "''Important memory''" "''reflection''" 7 None hiking_store
        True lower "\<lambda>x. x" "Some ''hiking''" None None 0 "''hiking''" 10]
    by simp
qed

subsection \<open>Decay of the emotional state\<close>

lemma decay_loop_lookup:
  "distinct (map fst bs) \<Longrightarrow> decay_loop r bs em = Inr em' \<Longrightarrow>
   map_of em' k = (case map_of bs k of None \<Rightarrow> map_of em k
                   | Some b \<Rightarrow> map_option (decay_value r b) (map_of em k))"
proof (induction bs arbitrary: em)
  case Nil
  then show ?case by simp
next
  case (Cons p bs)
  obtain k' b' where p: "p = (k', b')" by (cases p)
  from Cons.prems(2) p obtain c where c: "map_of em k' = Some c"
    by (auto split: option.splits)
  define em1 where "em1 = (if c \<noteq> b' then AList.update k' (decay_value r b' c) em else em)"
  have step: "decay_loop r bs em1 = Inr em'"
    using Cons.prems(2) p c by (auto simp: em1_def decay_value_def Let_def split: if_splits)
  have d: "distinct (map fst bs)" and nk: "k' \<notin> fst ` set bs"
    using Cons.prems(1) p by auto
  have IH: "map_of em' k = (case map_of bs k of None \<Rightarrow> map_of em1 k
                   | Some b \<Rightarrow> map_option (decay_value r b) (map_of em1 k))"
    by (rule Cons.IH[OF d step])
  have em1: "map_of em1 = (map_of em)(k' \<mapsto> decay_value r b' c)"
    using c by (auto simp: em1_def update_conv' decay_value_def fun_eq_iff)
  show ?case
  proof (cases "k = k'")
    case True
    then have "map_of bs k = None" using nk by (simp add: map_of_eq_None_iff)
    moreover have "map_of em1 k = Some (decay_value r b' c)"
      unfolding em1 using True by simp
    ultimately show ?thesis using IH True p c by simp
  next
    case False
    have "map_of em1 k = map_of em k"
      unfolding em1 using False by simp
    then show ?thesis using IH p False by (simp split: option.splits)
  qed
qed

lemma decay_loop_ok:
  "\<forall>k\<in>fst ` set bs. map_of em k \<noteq> None \<Longrightarrow>
   \<exists>em'. decay_loop r bs em = Inr em' \<and> dom (map_of em') = dom (map_of em)"
proof (induction bs arbitrary: em)
  case Nil
  then show ?case by simp
next
  case (Cons p bs)
  obtain k' b' where p: "p = (k', b')" by (cases p)
  from Cons.prems p obtain c where c: "map_of em k' = Some c" by auto
  have dom_upd: "dom (map_of (AList.update k' v em)) = dom (map_of em)" for v
    using c by (auto simp: update_conv')
  have "\<forall>k\<in>fst ` set bs. map_of (AList.update k' v em) k \<noteq> None" for v
    using Cons.prems by (auto simp: update_conv')
  from Cons.IH[OF this] Cons.IH[of em] Cons.prems
  show ?case using p c dom_upd by (auto simp: Let_def)
qed

lemma distinct_baselines: "distinct (map fst baselines)"
  by (simp add: baselines_def)

lemma baselines_range: "map_of baselines e = Some b \<Longrightarrow> 0 \<le> b \<and> b \<le> 1"
  by (auto simp: baselines_def split: if_splits)

lemma has_channels_iff: "has_channels st \<longleftrightarrow> fst ` set baselines \<subseteq> dom (map_of (emotions st))"
  by (auto simp: has_channels_def list_all_iff dom_def)

lemma decay_emotions_ok:
  assumes "has_channels st"
  shows "\<exists>st'. decay_emotions r st = Inr st' \<and> has_channels st'"
proof -
  from assms obtain em' where e: "decay_loop r baselines (emotions st) = Inr em'"
      and d: "dom (map_of em') = dom (map_of (emotions st))"
    using decay_loop_ok[of baselines "emotions st" r] unfolding has_channels_iff by blast
  have "has_channels (st\<lparr>emotions := em'\<rparr>)"
    using assms d unfolding has_channels_iff by simp
  then show ?thesis using e by (simp add: decay_emotions_def)
qed

lemma decay_emotions_lookup:
  assumes "decay_emotions r st = Inr st'" "map_of baselines e = Some b"
  shows "map_of (emotions st') e = map_option (decay_value r b) (map_of (emotions st) e)"
proof -
  from assms(1) obtain em' where e: "decay_loop r baselines (emotions st) = Inr em'"
     and s: "st' = st\<lparr>emotions := em'\<rparr>"
    by (auto simp: decay_emotions_def split: sum.splits)
  show ?thesis using decay_loop_lookup[OF distinct_baselines e, of e] assms(2) s by simp
qed

lemma decay_value_up:
  assumes "0 \<le> r" "r \<le> 1" "c < b"
  shows "decay_value r b c = max 0 (min 1 (c + r * (b - c)))"
    and "c \<le> c + r * (b - c)" and "c + r * (b - c) \<le> b"
proof -
  have "0 \<le> r * (b - c)" using assms by simp
  moreover have "r * (b - c) \<le> 1 * (b - c)"
    using assms by (intro mult_right_mono) simp_all
  ultimately show "c \<le> c + r * (b - c)" and "c + r * (b - c) \<le> b" by simp_all
  show "decay_value r b c = max 0 (min 1 (c + r * (b - c)))"
    using assms(3) by (simp add: decay_value_def)
qed

lemma decay_value_down:
  assumes "0 \<le> r" "r \<le> 1" "b < c"
  shows "decay_value r b c = max 0 (min 1 (c - r * (c - b)))"
    and "b \<le> c - r * (c - b)" and "c - r * (c - b) \<le> c"
proof -
  have "0 \<le> r * (c - b)" using assms by simp
  moreover have "r * (c - b) \<le> 1 * (c - b)"
    using assms by (intro mult_right_mono) simp_all
  ultimately show "b \<le> c - r * (c - b)" and "c - r * (c - b) \<le> c" by simp_all
  show "decay_value r b c = max 0 (min 1 (c - r * (c - b)))"
    using assms(3) by (simp add: decay_value_def)
qed

lemma decay_value_between:
  assumes "0 \<le> r" "r \<le> 1" "0 \<le> b" "b \<le> 1"
  shows "(c \<le> b \<longrightarrow> c \<le> decay_value r b c \<and> decay_value r b c \<le> b)
       \<and> (b \<le> c \<longrightarrow> b \<le> decay_value r b c \<and> decay_value r b c \<le> c)"
proof -
  consider "c < b" | "c = b" | "b < c" by linarith
  then show ?thesis
  proof cases
    case 1
    from decay_value_up[OF assms(1,2) 1] assms(3,4) 1 show ?thesis by linarith
  next
    case 2
    then show ?thesis by (simp add: decay_value_def)
  next
    case 3
    from decay_value_down[OF assms(1,2) 3] assms(3,4) 3 show ?thesis by linarith
  qed
qed




































subsection \<open>Search\<close>

lemma search_loop_eq:
  "search_loop lwr now q ms =
     (map (\<lambda>m. if py_in q (lwr (content m)) then touch now m else m) ms,
      map to_result (filter (\<lambda>m. py_in q (lwr (content m))) ms))"
  by (induction ms) simp_all

lemma lex_key_le:
  "((- a :: real, - b :: int) \<le> (- c, - d)) = (c < a \<or> (c = a \<and> d \<le> b))"
  by (auto simp: less_eq_prod_def)

lemma sorted_wrt_py_prefix: "sorted_wrt R xs \<Longrightarrow> sorted_wrt R (py_prefix xs k)"
  by (simp add: py_prefix_def sorted_wrt_take)

lemma length_py_prefix: "0 \<le> k \<Longrightarrow> length (py_prefix xs k) \<le> nat k"
  by (simp add: py_prefix_def)

lemma insort_key_map:
  "insort_key f (g x) (map g ys) = map g (insort_key (\<lambda>y. f (g y)) x ys)"
  by (induction ys) simp_all

lemma sort_key_map:
  "sort_key f (map g xs) = map g (sort_key (\<lambda>y. f (g y)) xs)"
  by (induction xs) (simp_all add: insort_key_map)

lemma search_results:
  "fst (search_memories lwr now query limit s) =
     map to_result (py_prefix (ranked_matches lwr query (memories s)) limit)"
proof -
  have m: "(\<lambda>m. py_in (lwr query) (lwr (content m))) = matches lwr query"
    by (simp add: matches_def fun_eq_iff)
  have k: "(\<lambda>y. (- sr_importance (to_result y), - sr_timestamp (to_result y)))
            = (\<lambda>m. (- importance m, - timestamp m))"
    by (simp add: to_result_def fun_eq_iff)
  have "fst (search_memories lwr now query limit s) =
      py_prefix (sort_key (\<lambda>x. (- sr_importance x, - sr_timestamp x))
                  (map to_result (filter (matches lwr query) (memories s)))) limit"
    by (simp add: search_memories_def search_loop_eq m)
  also have "\<dots> = py_prefix (map to_result (ranked_matches lwr query (memories s))) limit"
    by (simp only: sort_key_map k ranked_matches_def)
  also have "\<dots> = map to_result (py_prefix (ranked_matches lwr query (memories s)) limit)"
    by (simp add: py_prefix_def take_map)
  finally show ?thesis .
qed

lemma sorted_desc_entries:
  "sorted_wrt (\<lambda>a b. importance b < importance a
                  \<or> (importance b = importance a \<and> timestamp b \<le> timestamp a))
     (sort_key (\<lambda>m. (- importance m, - timestamp m)) ms)"
proof -
  have "sorted (map (\<lambda>m. (- importance m, - timestamp m))
          (sort_key (\<lambda>m. (- importance m, - timestamp m)) ms))"
    by (rule sorted_sort_key)
  then have "sorted_wrt (\<lambda>x y. (- importance x, - timestamp x) \<le> (- importance y, - timestamp y))
          (sort_key (\<lambda>m. (- importance m, - timestamp m)) ms)"
    by (simp only: sorted_map)
  then show ?thesis
    by (rule sorted_wrt_mono_rel[rotated]) (auto simp: lex_key_le)
qed

text \<open>
  Claim C9. Whatever \<open>str.lower\<close> does, \<open>search_memories\<close> adds one to the
  access count and sets the last access to now on every stored entry whose lower-cased
  content contains the lower-cased query, also on the matching entries that the limit
  cuts from the result; every other entry is left as it was. The results are, field by
  field (content, type, importance, timestamp, tags), the matching entries sorted by
  (importance, timestamp) descending, entries of equal pair in the order of the store, cut
  to the limit: the first \<open>limit\<close> of them when the limit is not negative.
\<close>

theorem search_memories_effects:
  "memories (snd (search_memories lwr now query limit s)) =
      map (\<lambda>m. if matches lwr query m
                then m\<lparr> access_count := access_count m + 1, last_accessed := now \<rparr>
                else m) (memories s)
   \<and> map sr_content (fst (search_memories lwr now query limit s)) =
        map content (py_prefix (ranked_matches lwr query (memories s)) limit)
   \<and> map sr_type (fst (search_memories lwr now query limit s)) =
        map memory_type (py_prefix (ranked_matches lwr query (memories s)) limit)
   \<and> map sr_importance (fst (search_memories lwr now query limit s)) =
        map importance (py_prefix (ranked_matches lwr query (memories s)) limit)
   \<and> map sr_timestamp (fst (search_memories lwr now query limit s)) =
        map timestamp (py_prefix (ranked_matches lwr query (memories s)) limit)
   \<and> map sr_tags (fst (search_memories lwr now query limit s)) =
        map tags (py_prefix (ranked_matches lwr query (memories s)) limit)
   \<and> ranked_matches lwr query (memories s) =
        sort_key (\<lambda>m. (- importance m, - timestamp m)) (filter (matches lwr query) (memories s))
   \<and> sorted_wrt (\<lambda>a b. importance b < importance a
                  \<or> (importance b = importance a \<and> timestamp b \<le> timestamp a))
        (ranked_matches lwr query (memories s))
   \<and> sorted_wrt (\<lambda>a b. sr_importance b < sr_importance a
                  \<or> (sr_importance b = sr_importance a \<and> sr_timestamp b \<le> sr_timestamp a))
        (fst (search_memories lwr now query limit s))
   \<and> (0 \<le> limit \<longrightarrow> length (fst (search_memories lwr now query limit s)) \<le> nat limit
         \<and> py_prefix (ranked_matches lwr query (memories s)) limit =
             take (nat limit) (ranked_matches lwr query (memories s)))"
proof -
  let ?E = "py_prefix (ranked_matches lwr query (memories s)) limit"
  have f: "fst (search_memories lwr now query limit s) = map to_result ?E"
    by (rule search_results)
  have s: "memories (snd (search_memories lwr now query limit s)) =
      map (\<lambda>m. if matches lwr query m
                then m\<lparr> access_count := access_count m + 1, last_accessed := now \<rparr>
                else m) (memories s)"
    by (simp add: search_memories_def search_loop_eq matches_def touch_def)
  have fields: "map sr_content (map to_result ?E) = map content ?E"
    "map sr_type (map to_result ?E) = map memory_type ?E"
    "map sr_importance (map to_result ?E) = map importance ?E"
    "map sr_timestamp (map to_result ?E) = map timestamp ?E"
    "map sr_tags (map to_result ?E) = map tags ?E"
    by (simp_all add: to_result_def)
  have r: "sorted_wrt (\<lambda>a b. importance b < importance a
                  \<or> (importance b = importance a \<and> timestamp b \<le> timestamp a))
        (ranked_matches lwr query (memories s))"
    unfolding ranked_matches_def by (rule sorted_desc_entries)
  have "sorted_wrt (\<lambda>a b. importance b < importance a
                  \<or> (importance b = importance a \<and> timestamp b \<le> timestamp a)) ?E"
    using r by (rule sorted_wrt_py_prefix)
  then have rs: "sorted_wrt (\<lambda>a b. sr_importance b < sr_importance a
                  \<or> (sr_importance b = sr_importance a \<and> sr_timestamp b \<le> sr_timestamp a))
        (map to_result ?E)"
    by (simp add: sorted_wrt_map to_result_def)
  have l: "0 \<le> limit \<longrightarrow> length (map to_result ?E) \<le> nat limit
         \<and> ?E = take (nat limit) (ranked_matches lwr query (memories s))"
    by (simp add: length_py_prefix) (simp add: py_prefix_def)
  have d: "ranked_matches lwr query (memories s) =
        sort_key (\<lambda>m. (- importance m, - timestamp m)) (filter (matches lwr query) (memories s))"
    by (simp add: ranked_matches_def)
  show ?thesis
    unfolding f s using fields r rs l d by blast
qed


subsection \<open>Recall\<close>

lemma insort_key_stable_index:
  fixes f :: "nat \<Rightarrow> 'b::linorder"
  assumes "sorted_wrt (\<lambda>i j. f i < f j \<or> (f i = f j \<and> i < j)) ys" "\<forall>y\<in>set ys. x < y"
  shows "sorted_wrt (\<lambda>i j. f i < f j \<or> (f i = f j \<and> i < j)) (insort_key f x ys)"
  using assms
proof (induction ys)
  case Nil
  then show ?case by simp
next
  case (Cons y ys)
  show ?case
  proof (cases "f x \<le> f y")
    case True
    have "\<forall>z\<in>set ys. f y \<le> f z" using Cons.prems(1) by auto
    then have "\<forall>z\<in>set (y # ys). f x < f z \<or> (f x = f z \<and> x < z)"
      using True Cons.prems(2) by (auto simp: le_less)  
    then show ?thesis using True Cons.prems(1) by simp
  next
    case False
    have ih: "sorted_wrt (\<lambda>i j. f i < f j \<or> (f i = f j \<and> i < j)) (insort_key f x ys)"
      using Cons by simp
    have "\<forall>z\<in>set (insort_key f x ys). f y < f z \<or> (f y = f z \<and> y < z)"
      using False Cons.prems(1) by (auto simp: set_insort_key)
    then show ?thesis using False ih by simp
  qed
qed

lemma sort_key_stable_index:
  fixes f :: "nat \<Rightarrow> 'b::linorder"
  shows "sorted_wrt (<) xs \<Longrightarrow> sorted_wrt (\<lambda>i j. f i < f j \<or> (f i = f j \<and> i < j)) (sort_key f xs)"
proof (induction xs)
  case Nil
  then show ?case by simp
next
  case (Cons x xs)
  then have "\<forall>y\<in>set (sort_key f xs). x < y" by simp
  with Cons show ?case by (simp add: insort_key_stable_index)
qed

lemma recall_sorted_props:
  "sorted_wrt (\<lambda>i j. memory_score rnd now (ms ! j) < memory_score rnd now (ms ! i)
               \<or> (memory_score rnd now (ms ! i) = memory_score rnd now (ms ! j) \<and> i < j))
     (recall_sorted lwr rnd now keyword mtype mi ms)
   \<and> (\<forall>i. i \<in> set (recall_sorted lwr rnd now keyword mtype mi ms) \<longrightarrow>
          i < length ms
        \<and> (\<forall>k. keyword = Some k \<and> k \<noteq> [] \<longrightarrow> py_in (lwr k) (lwr (content (ms ! i))))
        \<and> (\<forall>t. mtype = Some t \<and> t \<noteq> [] \<longrightarrow> memory_type (ms ! i) = t)
        \<and> mi \<le> importance (ms ! i))"
proof -
  define f1 where "f1 = (case keyword of None \<Rightarrow> [0..<length ms]
       | Some k \<Rightarrow> if k = [] then [0..<length ms]
                   else filter (\<lambda>i. py_in (lwr k) (lwr (content (ms ! i)))) [0..<length ms])"
  define f2 where "f2 = (case mtype of None \<Rightarrow> f1
       | Some t \<Rightarrow> if t = [] then f1 else filter (\<lambda>i. memory_type (ms ! i) = t) f1)"
  define f3 where "f3 = filter (\<lambda>i. importance (ms ! i) \<ge> mi) f2"
  have r: "recall_sorted lwr rnd now keyword mtype mi ms = sort_key (\<lambda>i. - memory_score rnd now (ms ! i)) f3"
    by (simp only: recall_sorted_def Let_def f3_def f2_def f1_def)
  have s1: "sorted_wrt (<) f1"
    by (auto simp: f1_def sorted_wrt_filter split: option.splits)
  have s2: "sorted_wrt (<) f2"
    using s1 by (auto simp: f2_def sorted_wrt_filter split: option.splits)
  have s3: "sorted_wrt (<) f3"
    using s2 by (simp add: f3_def sorted_wrt_filter)
  have m1: "\<forall>i\<in>set f1. i < length ms \<and> (\<forall>k. keyword = Some k \<and> k \<noteq> [] \<longrightarrow> py_in (lwr k) (lwr (content (ms ! i))))"
    by (auto simp: f1_def py_in_def lower_def split: option.splits if_splits)
  have m2: "\<forall>i\<in>set f2. i \<in> set f1 \<and> (\<forall>t. mtype = Some t \<and> t \<noteq> [] \<longrightarrow> memory_type (ms ! i) = t)"
    by (auto simp: f2_def split: option.splits if_splits)
  have m3: "\<forall>i\<in>set f3. i \<in> set f2 \<and> mi \<le> importance (ms ! i)"
    by (auto simp: f3_def)
  have "sorted_wrt (\<lambda>i j. - memory_score rnd now (ms ! i) < - memory_score rnd now (ms ! j)
               \<or> (- memory_score rnd now (ms ! i) = - memory_score rnd now (ms ! j) \<and> i < j))
          (sort_key (\<lambda>i. - memory_score rnd now (ms ! i)) f3)"
    by (rule sort_key_stable_index[OF s3])
  then have "sorted_wrt (\<lambda>i j. memory_score rnd now (ms ! j) < memory_score rnd now (ms ! i)
               \<or> (memory_score rnd now (ms ! i) = memory_score rnd now (ms ! j) \<and> i < j))
     (recall_sorted lwr rnd now keyword mtype mi ms)"
    unfolding r by simp
  moreover have "set (recall_sorted lwr rnd now keyword mtype mi ms) = set f3"
    unfolding r by simp
  ultimately show ?thesis using m1 m2 m3 by blast
qed

lemma recall_sorted_set:
  "set (recall_sorted lwr rnd now keyword mtype mi ms) =
     {i. i < length ms \<and> selected lwr keyword mtype mi (ms ! i)}"
  "distinct (recall_sorted lwr rnd now keyword mtype mi ms)"
  by (auto simp: recall_sorted_def Let_def selected_def split: option.splits)

lemma distinct_py_prefix: "distinct xs \<Longrightarrow> distinct (py_prefix xs k)"
  by (simp add: py_prefix_def)

lemma recall_returned_all:
  "limit = None \<or> limit = Some 0 \<Longrightarrow>
   recall_returned lwr rnd now keyword mtype limit mi ms = recall_sorted lwr rnd now keyword mtype mi ms"
  by (auto simp: recall_returned_def Let_def)

lemma recall_returned_distinct: "distinct (recall_returned lwr rnd now keyword mtype limit mi ms)"
  by (auto simp: recall_returned_def Let_def recall_sorted_set(2) distinct_py_prefix split: option.splits)

lemma set_py_prefix: "set (py_prefix xs k) \<subseteq> set xs"
  by (auto simp: py_prefix_def dest: in_set_takeD)

lemma recall_returned_props:
  "sorted_wrt (\<lambda>i j. memory_score rnd now (ms ! j) < memory_score rnd now (ms ! i)
               \<or> (memory_score rnd now (ms ! i) = memory_score rnd now (ms ! j) \<and> i < j))
     (recall_returned lwr rnd now keyword mtype limit mi ms)
   \<and> set (recall_returned lwr rnd now keyword mtype limit mi ms) \<subseteq> set (recall_sorted lwr rnd now keyword mtype mi ms)"
  using recall_sorted_props[of rnd now ms lwr keyword mtype mi]
    set_py_prefix[of "recall_sorted lwr rnd now keyword mtype mi ms"]
  by (auto simp: recall_returned_def Let_def sorted_wrt_py_prefix split: option.splits)

lemma touch_fold_content:
  "map content (fold (\<lambda>i ms. ms[i := touch now (ms ! i)]) idxs ms) = map content ms"
proof (induction idxs arbitrary: ms)
  case Nil
  then show ?case by simp
next
  case (Cons i idxs)
  have "map content (ms[i := touch now (ms ! i)]) = map content ms"
  proof (cases "i < length ms")
    case True
    then show ?thesis by (simp add: map_update touch_def list_update_same_conv)
  next
    case False
    then show ?thesis by (simp add: list_update_beyond)
  qed
  then show ?case using Cons.IH[of "ms[i := touch now (ms ! i)]"] by simp
qed

lemma touch_fold_length:
  "length (fold (\<lambda>i ms. ms[i := touch now (ms ! i)]) idxs ms) = length ms"
  by (induction idxs arbitrary: ms) simp_all

lemma recall_contents:
  "fst (recall lwr rnd now keyword mtype limit mi s) =
     map (\<lambda>i. content (memories s ! i)) (recall_returned lwr rnd now keyword mtype limit mi (memories s))"
proof -
  let ?r = "recall_returned lwr rnd now keyword mtype limit mi (memories s)"
  let ?ms' = "fold (\<lambda>i ms. ms[i := touch now (ms ! i)]) ?r (memories s)"
  have lt: "\<forall>i\<in>set ?r. i < length (memories s)"
    using recall_returned_props[of rnd now "memories s" lwr keyword mtype limit mi]
      recall_sorted_props[of rnd now "memories s" lwr keyword mtype mi] by blast
  have "content (?ms' ! i) = content (memories s ! i)" if "i \<in> set ?r" for i
  proof -
    have i: "i < length (memories s)" using lt that by blast
    then have "content (?ms' ! i) = map content ?ms' ! i" by (simp add: touch_fold_length)
    also have "\<dots> = map content (memories s) ! i" by (simp only: touch_fold_content)
    also have "\<dots> = content (memories s ! i)" using i by simp
    finally show ?thesis .
  qed
  then show ?thesis by (simp add: recall_def Let_def)
qed

text \<open>
  Claim C2. For every store, keyword, type, limit and importance floor (the claim's call
  leaves the last three at their defaults), whatever \<open>str.lower\<close> does and however
  float arithmetic rounds, \<open>recall\<close> returns the contents of stored entries only,
  each of them once and each of which contains the keyword after both are lower-cased (an
  absent or empty keyword does not filter), and without a limit all the entries that pass
  the filters, in an order that is non-increasing in the relevance score
  \<open>importance * 0.5 + max 0 (1 - days / 30) * 0.3 + min (access_count / 10) 0.2\<close>
  as the float arithmetic computes it, entries of equal computed score in the order of their
  insertion. The scores are those of the entries as they were when \<open>recall\<close> was
  called. Where no operation rounds, the computed score is the exact value of the formula.
\<close>

theorem recall_ranked:
  "fst (recall lwr rnd now keyword mtype limit min_importance s) =
     map (\<lambda>i. content (memories s ! i))
       (recall_returned lwr rnd now keyword mtype limit min_importance (memories s))
   \<and> (\<forall>i. i \<in> set (recall_returned lwr rnd now keyword mtype limit min_importance (memories s)) \<longrightarrow>
         i < length (memories s)
       \<and> (\<forall>k. keyword = Some k \<and> k \<noteq> [] \<longrightarrow> py_in (lwr k) (lwr (content (memories s ! i)))))
   \<and> sorted_wrt (\<lambda>i j. memory_score rnd now (memories s ! j) < memory_score rnd now (memories s ! i)
               \<or> (memory_score rnd now (memories s ! i) = memory_score rnd now (memories s ! j) \<and> i < j))
        (recall_returned lwr rnd now keyword mtype limit min_importance (memories s))
   \<and> distinct (recall_returned lwr rnd now keyword mtype limit min_importance (memories s))
   \<and> (limit = None \<or> limit = Some 0 \<longrightarrow>
        set (recall_returned lwr rnd now keyword mtype limit min_importance (memories s)) =
          {i. i < length (memories s) \<and> selected lwr keyword mtype min_importance (memories s ! i)})
   \<and> (\<forall>m. memory_score rnd now m =
          rnd (rnd (rnd (importance m * rnd 0.5)
                    + rnd (max 0 (rnd (1 - rnd (real_of_int ((now - timestamp m) div 86400000000) / 30)))
                           * rnd 0.3))
               + min (rnd (real_of_int (access_count m) / 10)) (rnd 0.2)))
   \<and> (\<forall>m. memory_score (\<lambda>x. x) now m =
          importance m * 0.5
          + max 0 (1 - real_of_int ((now - timestamp m) div 86400000000) / 30) * 0.3
          + min (real_of_int (access_count m) / 10) 0.2)"
proof -
  let ?r = "recall_returned lwr rnd now keyword mtype limit min_importance (memories s)"
  have a: "fst (recall lwr rnd now keyword mtype limit min_importance s) =
     map (\<lambda>i. content (memories s ! i)) ?r"
    by (rule recall_contents)
  have b: "\<forall>i. i \<in> set ?r \<longrightarrow>
         i < length (memories s)
       \<and> (\<forall>k. keyword = Some k \<and> k \<noteq> [] \<longrightarrow> py_in (lwr k) (lwr (content (memories s ! i))))"
    using recall_returned_props[of rnd now "memories s" lwr keyword mtype limit min_importance]
      recall_sorted_props[of rnd now "memories s" lwr keyword mtype min_importance]
    by blast
  have c: "sorted_wrt (\<lambda>i j. memory_score rnd now (memories s ! j) < memory_score rnd now (memories s ! i)
               \<or> (memory_score rnd now (memories s ! i) = memory_score rnd now (memories s ! j) \<and> i < j)) ?r"
    using recall_returned_props[of rnd now "memories s" lwr keyword mtype limit min_importance]
    by blast
  have d: "\<forall>m. memory_score rnd now m =
          rnd (rnd (rnd (importance m * rnd 0.5)
                    + rnd (max 0 (rnd (1 - rnd (real_of_int ((now - timestamp m) div 86400000000) / 30)))
                           * rnd 0.3))
               + min (rnd (real_of_int (access_count m) / 10)) (rnd 0.2))"
    by (simp add: memory_score_def days_def Let_def)
  have e: "\<forall>m. memory_score (\<lambda>x. x) now m =
          importance m * 0.5
          + max 0 (1 - real_of_int ((now - timestamp m) div 86400000000) / 30) * 0.3
          + min (real_of_int (access_count m) / 10) 0.2"
    by (simp add: memory_score_def days_def Let_def)
  have f: "distinct ?r" by (rule recall_returned_distinct)
  have g: "limit = None \<or> limit = Some 0 \<longrightarrow>
        set ?r = {i. i < length (memories s) \<and> selected lwr keyword mtype min_importance (memories s ! i)}"
  proof
    assume "limit = None \<or> limit = Some 0"
    then have "?r = recall_sorted lwr rnd now keyword mtype min_importance (memories s)"
      by (rule recall_returned_all)
    then show "set ?r = {i. i < length (memories s) \<and> selected lwr keyword mtype min_importance (memories s ! i)}"
      by (simp only: recall_sorted_set(1))
  qed
  show ?thesis
    apply (intro conjI)
    using a b c d e f g by blast+
qed

subsection \<open>Clean-up\<close>

lemma map_of_fold_update:
  "map_of (fold (\<lambda>x d. AList.update (key x) x d) xs d) = fold (\<lambda>x m. m(key x \<mapsto> x)) xs (map_of d)"
  by (induction xs arbitrary: d) (simp_all add: update_conv')

lemma distinct_fold_update:
  "distinct (map fst d) \<Longrightarrow> distinct (map fst (fold (\<lambda>x d. AList.update (key x) x d) xs d))"
  by (induction xs arbitrary: d) (simp_all add: distinct_update)

lemma dom_fold_upd: "dom (fold (\<lambda>x m. m(key x \<mapsto> x)) xs m) = key ` set xs \<union> dom m"
  by (induction xs arbitrary: m) auto

lemma fold_upd_last:
  "m \<in> set xs \<Longrightarrow> \<forall>x\<in>set xs. key x = key m \<longrightarrow> x = m \<Longrightarrow>
   fold (\<lambda>x m. m(key x \<mapsto> x)) xs m0 (key m) = Some m"
proof (induction xs arbitrary: m0 rule: rev_induct)
  case Nil
  then show ?case by simp
next
  case (snoc x xs)
  show ?case
  proof (cases "key x = key m")
    case True
    then have "x = m" using snoc.prems(2) by simp
    then show ?thesis by simp
  next
    case False
    then have "m \<in> set xs" using snoc.prems(1) by auto
    then show ?thesis using snoc False by simp
  qed
qed

lemma fold_upd_key:
  "\<forall>k v. m0 k = Some v \<longrightarrow> key v = k \<Longrightarrow>
   fold (\<lambda>x m. m(key x \<mapsto> x)) xs m0 k = Some v \<Longrightarrow> key v = k"
  by (induction xs arbitrary: m0 rule: rev_induct) (auto split: if_splits)

lemma length_dict_values_by: "length (dict_values_by key xs) = card (key ` set xs)"
proof -
  let ?al = "fold (\<lambda>x d. AList.update (key x) x d) xs []"
  have d: "distinct (map fst ?al)" by (rule distinct_fold_update) simp
  have "fst ` set ?al = dom (map_of ?al)" by (simp add: dom_map_of_conv_image_fst)
  also have "\<dots> = key ` set xs" by (simp add: map_of_fold_update dom_fold_upd)
  finally have "set (map fst ?al) = key ` set xs" by simp
  then have "card (key ` set xs) = length (map fst ?al)"
    using distinct_card[OF d] by simp
  then show ?thesis by (simp add: dict_values_by_def)
qed

lemma dict_values_by_unique:
  assumes "m \<in> set xs" "\<forall>x\<in>set xs. key x = key m \<longrightarrow> x = m"
  shows "m \<in> set (dict_values_by key xs)"
proof -
  let ?al = "fold (\<lambda>x d. AList.update (key x) x d) xs []"
  have "map_of ?al (key m) = Some m"
    using fold_upd_last[OF assms, of Map.empty] by (simp add: map_of_fold_update)
  then have "(key m, m) \<in> set ?al" by (rule map_of_SomeD)
  then show ?thesis by (force simp: dict_values_by_def)
qed

lemma dict_values_by_same_key:
  assumes "m \<in> set xs"
  shows "\<exists>m'\<in>set (dict_values_by key xs). key m' = key m"
proof -
  let ?al = "fold (\<lambda>x d. AList.update (key x) x d) xs []"
  have "key m \<in> dom (map_of ?al)"
    using assms by (simp add: map_of_fold_update dom_fold_upd)
  then obtain v where v: "map_of ?al (key m) = Some v" by blast
  then have "key v = key m"
    using fold_upd_key[of Map.empty key xs "key m" v] by (simp add: map_of_fold_update)
  moreover have "(key m, v) \<in> set ?al" using v by (rule map_of_SomeD)
  then have "v \<in> set (dict_values_by key xs)" by (force simp: dict_values_by_def)
  ultimately show ?thesis by blast
qed

lemma cleanup_eq:
  "memories (cleanup_memories now s) =
    (let keep = dict_values_by content (kept_candidates now (memories s))
     in if length keep > max_memories s
        then take (max_memories s) (sort_key (\<lambda>x. - access_count x) keep) else keep)"
  by (simp add: cleanup_memories_def kept_candidates_def Let_def)

lemma cleanup_length: "length (memories (cleanup_memories now s)) \<le> max_memories s"
  by (simp add: cleanup_eq Let_def)

text \<open>
  Claim C1, as amended. After \<open>_cleanup_memories\<close> the store holds at most
  \<open>max_memories\<close> entries. When the important and the recent entries together have at
  most \<open>max_memories\<close> different contents, then for every entry of importance at
  least 0.8 an entry with the same content is still in the store, and the entry itself is
  still there when no other stored entry shares its content.
\<close>

theorem cleanup_retains:
  "length (memories (cleanup_memories now s)) \<le> max_memories s
   \<and> (card (content ` set (kept_candidates now (memories s))) \<le> max_memories s \<longrightarrow>
       (\<forall>m. m \<in> set (memories s) \<and> importance m \<ge> 0.8 \<longrightarrow>
          (\<exists>m'\<in>set (memories (cleanup_memories now s)). content m' = content m)
        \<and> ((\<forall>x\<in>set (memories s). content x = content m \<longrightarrow> x = m) \<longrightarrow>
             m \<in> set (memories (cleanup_memories now s)))))"
proof -
  let ?c = "kept_candidates now (memories s)"
  have fits: "memories (cleanup_memories now s) = dict_values_by content ?c"
    if "card (content ` set ?c) \<le> max_memories s"
    using that by (simp add: cleanup_eq Let_def length_dict_values_by)
  have in_c: "m \<in> set ?c" if "m \<in> set (memories s)" "importance m \<ge> 0.8" for m
    using that by (simp add: kept_candidates_def)
  have sub: "set ?c \<subseteq> set (memories s)" by (auto simp: kept_candidates_def)
  have a: "\<exists>m'\<in>set (dict_values_by content ?c). content m' = content m"
    if "m \<in> set (memories s)" "importance m \<ge> 0.8" for m
    using dict_values_by_same_key[OF in_c[OF that]] .
  have b: "m \<in> set (dict_values_by content ?c)"
    if "m \<in> set (memories s)" "importance m \<ge> 0.8"
       "\<forall>x\<in>set (memories s). content x = content m \<longrightarrow> x = m" for m
    using dict_values_by_unique[OF in_c[OF that(1,2)], of content] that(3) sub by blast
  show ?thesis
    using cleanup_length[of now s] fits a b by auto
qed


theorem cleanup_retains_witness:
  "card (content ` set (kept_candidates 2592000000000 (memories small_store))) \<le> max_memories small_store
   \<and> max_memories small_store < length (memories small_store)
   \<and> old_important \<in> set (memories small_store) \<and> importance old_important \<ge> 0.8
   \<and> length (memories (cleanup_memories 2592000000000 small_store)) \<le> max_memories small_store
   \<and> old_important \<in> set (memories (cleanup_memories 2592000000000 small_store))"
proof -
  have h1: "card (content ` set (kept_candidates 2592000000000 (memories small_store)))
              \<le> max_memories small_store"
    by code_simp
  have h2: "old_important \<in> set (memories small_store)" by (simp add: small_store_def)
  have h3: "importance old_important \<ge> 0.8" by (simp add: old_important_def MemoryEntry_def)
  have h4: "\<forall>x\<in>set (memories small_store). content x = content old_important \<longrightarrow> x = old_important"
    by (simp add: small_store_def old_important_def MemoryEntry_def)
  have h5: "max_memories small_store < length (memories small_store)" by (simp add: small_store_def)
  from cleanup_retains[of 2592000000000 small_store] h1 h2 h3 h4
  have "length (memories (cleanup_memories 2592000000000 small_store)) \<le> max_memories small_store
      \<and> old_important \<in> set (memories (cleanup_memories 2592000000000 small_store))"
    by blast
  with h1 h2 h3 h5 show ?thesis by blast
qed

lemma update_fresh: "k \<notin> fst ` set d \<Longrightarrow> AList.update k v d = d @ [(k, v)]"
  by (induction d) auto

lemma fold_update_fresh:
  "distinct (map key xs) \<Longrightarrow> key ` set xs \<inter> fst ` set d = {} \<Longrightarrow>
   fold (\<lambda>x d. AList.update (key x) x d) xs d = d @ map (\<lambda>x. (key x, x)) xs"
proof (induction xs arbitrary: d)
  case Nil
  then show ?case by simp
next
  case (Cons x xs)
  have f: "key x \<notin> fst ` set d" using Cons.prems(2) by auto
  have "key ` set xs \<inter> fst ` set (d @ [(key x, x)]) = {}"
    using Cons.prems by auto
  with Cons.IH[of "d @ [(key x, x)]"] Cons.prems(1) f show ?case
    by (simp add: update_fresh)
qed

lemma fold_update_present:
  "distinct (map fst d) \<Longrightarrow> \<forall>x\<in>set xs. (key x, x) \<in> set d \<Longrightarrow>
   fold (\<lambda>x d. AList.update (key x) x d) xs d = d"
  by (induction xs) (simp_all add: update_triv)

lemma dict_values_by_twice:
  assumes "distinct (map key xs)"
  shows "dict_values_by key (xs @ xs) = xs"
proof -
  let ?d = "map (\<lambda>x. (key x, x)) xs"
  have 1: "fold (\<lambda>x d. AList.update (key x) x d) xs [] = ?d"
    using fold_update_fresh[OF assms, of "[]"] by simp
  have "map fst ?d = map key xs" by (simp add: comp_def)
  then have "distinct (map fst ?d)" using assms by (simp only:)
  then have 2: "fold (\<lambda>x d. AList.update (key x) x d) xs ?d = ?d"
    by (rule fold_update_present) auto
  show ?thesis by (simp add: dict_values_by_def 1 2 comp_def)
qed

lemma sort_key_constant: "\<forall>x\<in>set xs. f x = c \<Longrightarrow> sort_key f xs = xs"
proof (rule sort_key_id_if_sorted)
  assume "\<forall>x\<in>set xs. f x = c"
  then have "map f xs = replicate (length xs) c"
    by (induction xs) simp_all
  then show "sorted (map f xs)" by (simp add: sorted_replicate)
qed

lemma numbered_entry_inj: "numbered_entry i = numbered_entry j \<Longrightarrow> i = j"
proof -
  assume "numbered_entry i = numbered_entry j"
  then have "content (numbered_entry i) = content (numbered_entry j)" by simp
  then have "length (replicate (Suc i) CHR ''a'') = length (replicate (Suc j) CHR ''a'')"
    by (simp only: numbered_entry_def MemoryEntry_def memory_entry.simps)
  then show ?thesis by simp
qed

lemma numbered_distinct: "distinct (map content (map numbered_entry [0..<n]))"
proof -
  have "inj (\<lambda>i. content (numbered_entry i))"
  proof (rule injI)
    fix i j assume "content (numbered_entry i) = content (numbered_entry j)"
    then have "length (replicate (Suc i) CHR ''a'') = length (replicate (Suc j) CHR ''a'')"
      by (simp only: numbered_entry_def MemoryEntry_def memory_entry.simps)
    then show "i = j" by simp
  qed
  then show ?thesis by (simp add: distinct_map comp_def inj_on_def)
qed

lemma full_store_cleanup:
  "memories (cleanup_memories 0 full_store) = map numbered_entry [0..<1000]"
proof -
  let ?xs = "map numbered_entry [0..<1001]"
  have k: "kept_candidates 0 ?xs = ?xs @ ?xs"
    by (simp add: kept_candidates_def numbered_entry_def MemoryEntry_def timedelta_days_def)
  have d: "dict_values_by content (?xs @ ?xs) = ?xs"
    by (rule dict_values_by_twice[OF numbered_distinct])
  have s: "sort_key (\<lambda>x. - access_count x) ?xs = ?xs"
    by (rule sort_key_constant[where c = 0]) (simp add: numbered_entry_def MemoryEntry_def)
  have "memories (cleanup_memories 0 full_store) = take 1000 ?xs"
    unfolding cleanup_eq by (simp add: full_store_def k d s Let_def del: upt_Suc map_append)
  then show ?thesis by (simp add: take_map del: upt_Suc)
qed

text \<open>
  Claim C1 as stated fails on the scenario it names: of 1001 entries of importance 0.9
  with different contents in a store of capacity 1000, the clean-up drops the last.
\<close>

theorem cleanup_drops_important_counterexample:
  "max_memories full_store < length (memories full_store)
   \<and> numbered_entry 1000 \<in> set (memories full_store)
   \<and> importance (numbered_entry 1000) \<ge> 0.8
   \<and> numbered_entry 1000 \<notin> set (memories (cleanup_memories 0 full_store))"
proof -
  have "numbered_entry 1000 \<notin> set (map numbered_entry [0..<1000])"
    by (auto dest: numbered_entry_inj)
  moreover have "numbered_entry 1000 \<in> set (map numbered_entry [0..<1001])"
    by (simp del: upt_Suc)
  moreover have "importance (numbered_entry 1000) \<ge> 0.8"
    by (simp add: numbered_entry_def MemoryEntry_def)
  ultimately show ?thesis
    by (simp add: full_store_cleanup) (simp add: full_store_def del: upt_Suc)
qed

subsection \<open>Recall and search on concrete stores\<close>

theorem recall_ranked_witness:
  "recall_returned lower (\<lambda>x. x) 5 (Some ''programming'') None None 0 (memories prog_store) = [3, 0, 2]
   \<and> fst (recall lower (\<lambda>x. x) 5 (Some ''programming'') None None 0 prog_store)
        = [''Functional programming'', ''I love programming'', ''Programming is fun'']
   \<and> py_in (lower ''programming'') (lower (content (memories prog_store ! 2)))
   \<and> memory_score (\<lambda>x. x) 5 (memories prog_store ! 0) < memory_score (\<lambda>x. x) 5 (memories prog_store ! 3)
   \<and> memory_score (\<lambda>x. x) 5 (memories prog_store ! 0) = memory_score (\<lambda>x. x) 5 (memories prog_store ! 2)"
proof -
  let ?r = "recall_returned lower (\<lambda>x. x) 5 (Some ''programming'') None None 0 (memories prog_store)"
  have ev: "?r = [3, 0, 2]" by code_simp
  have T: "fst (recall lower (\<lambda>x. x) 5 (Some ''programming'') None None 0 prog_store) =
             map (\<lambda>i. content (memories prog_store ! i)) ?r
           \<and> (\<forall>i. i \<in> set ?r \<longrightarrow> i < length (memories prog_store)
                \<and> (\<forall>k. Some ''programming'' = Some k \<longrightarrow>
                      py_in (lower k) (lower (content (memories prog_store ! i)))))
           \<and> sorted_wrt (\<lambda>i j. memory_score (\<lambda>x. x) 5 (memories prog_store ! j) < memory_score (\<lambda>x. x) 5 (memories prog_store ! i)
               \<or> (memory_score (\<lambda>x. x) 5 (memories prog_store ! i) = memory_score (\<lambda>x. x) 5 (memories prog_store ! j) \<and> i < j)) ?r"
    using recall_ranked[of lower "\<lambda>x. x" 5 "Some ''programming''" None None 0 prog_store] by blast
  have a: "fst (recall lower (\<lambda>x. x) 5 (Some ''programming'') None None 0 prog_store)
        = [''Functional programming'', ''I love programming'', ''Programming is fun'']"
  proof -
    have "fst (recall lower (\<lambda>x. x) 5 (Some ''programming'') None None 0 prog_store) =
             map (\<lambda>i. content (memories prog_store ! i)) [3, 0, 2]"
      using T by (simp only: ev)
    also have "\<dots> = [''Functional programming'', ''I love programming'', ''Programming is fun'']"
      by (simp add: prog_store_def MemoryEntry_def)
    finally show ?thesis .
  qed
  have b: "py_in (lower ''programming'') (lower (content (memories prog_store ! 2)))"
  proof -
    have "2 \<in> set ?r" by (simp add: ev)
    with T show ?thesis by blast
  qed
  have s: "sorted_wrt (\<lambda>i j. memory_score (\<lambda>x. x) 5 (memories prog_store ! j) < memory_score (\<lambda>x. x) 5 (memories prog_store ! i)
               \<or> (memory_score (\<lambda>x. x) 5 (memories prog_store ! i) = memory_score (\<lambda>x. x) 5 (memories prog_store ! j) \<and> i < j)) [3, 0, 2]"
    using T by (simp only: ev)
  have c: "memory_score (\<lambda>x. x) 5 (memories prog_store ! 0) < memory_score (\<lambda>x. x) 5 (memories prog_store ! 3)"
    using s by simp
  have d: "memory_score (\<lambda>x. x) 5 (memories prog_store ! 0) = memory_score (\<lambda>x. x) 5 (memories prog_store ! 2)"
    by (simp add: memory_score_def prog_store_def MemoryEntry_def days_def)
  from ev a b c d show ?thesis by blast
qed

theorem search_memories_effects_witness:
  "(0::int) \<le> 1
   \<and> length (fst (search_memories lower 9 ''ARTIFICIAL'' 1 ai_store)) \<le> nat 1
   \<and> map sr_content (fst (search_memories lower 9 ''ARTIFICIAL'' 1 ai_store)) = [''Artificial light'']
   \<and> map sr_importance (fst (search_memories lower 9 ''ARTIFICIAL'' 1 ai_store)) = [4/5]
   \<and> map sr_timestamp (fst (search_memories lower 9 ''ARTIFICIAL'' 1 ai_store)) = [2]
   \<and> map content (ranked_matches lower ''ARTIFICIAL'' (memories ai_store))
        = [''Artificial light'', ''I love artificial intelligence'']
   \<and> map access_count (memories (snd (search_memories lower 9 ''ARTIFICIAL'' 1 ai_store))) = [1, 0, 1]
   \<and> map last_accessed (memories (snd (search_memories lower 9 ''ARTIFICIAL'' 1 ai_store))) = [9, 1, 9]"
proof -
  let ?res = "search_memories lower 9 ''ARTIFICIAL'' 1 ai_store"
  let ?touched = "map (\<lambda>m. if matches lower ''ARTIFICIAL'' m
                then m\<lparr> access_count := access_count m + 1, last_accessed := 9 \<rparr>
                else m) (memories ai_store)"
  let ?E = "py_prefix (ranked_matches lower ''ARTIFICIAL'' (memories ai_store)) 1"
  have T: "memories (snd ?res) = ?touched
         \<and> map sr_content (fst ?res) = map content ?E
         \<and> map sr_importance (fst ?res) = map importance ?E
         \<and> map sr_timestamp (fst ?res) = map timestamp ?E
         \<and> (0 \<le> (1::int) \<longrightarrow> length (fst ?res) \<le> nat 1)"
    using search_memories_effects[of lower 9 "''ARTIFICIAL''" 1 ai_store] by blast
  have e1: "map access_count ?touched = [1, 0, 1]" by code_simp
  have e2: "map last_accessed ?touched = [9, 1, 9]" by code_simp
  have e3: "map content ?E = [''Artificial light'']" by code_simp
  have e4: "map importance ?E = [4/5]" by code_simp
  have e5: "map timestamp ?E = [2]" by code_simp
  have e6: "map content (ranked_matches lower ''ARTIFICIAL'' (memories ai_store))
        = [''Artificial light'', ''I love artificial intelligence'']" by code_simp
  from T have l: "length (fst ?res) \<le> nat 1"
    and c: "map sr_content (fst ?res) = map content ?E"
    and i: "map sr_importance (fst ?res) = map importance ?E"
    and t: "map sr_timestamp (fst ?res) = map timestamp ?E"
    and m: "memories (snd ?res) = ?touched" by simp_all
  show ?thesis using l e1 e2 e3 e4 e5 e6 unfolding c i t m by simp
qed

subsection \<open>Processing an input\<close>

lemma analyze_thank_you:
  "analyze_emotional_content setup_triggers ''Thank you so much!'' '''' =
     [(''joy'', 3/100), (''affection'', 2/100), (''calmness'', 1/100)]"
  by code_simp

lemma update_emotion_lookup:
  "map_of (emotions (snd (update_emotion now e ch r st))) k =
     (if k = e then map_option (\<lambda>v. max 0 (min 1 (v + ch * (1 - stability st * 0.5))))
                      (map_of (emotions st) e)
      else map_of (emotions st) k)"
  by (simp add: update_emotion_def Let_def update_conv' split: option.splits)

lemma update_emotion_stability:
  "stability (snd (update_emotion now e ch r st)) = stability st"
  by (simp add: update_emotion_def Let_def split: option.splits)

lemma update_emotion_has_channels:
  "has_channels st \<Longrightarrow> has_channels (snd (update_emotion now e ch r st))"
  unfolding has_channels_def list_all_iff
  by (auto simp: update_emotion_lookup)

lemma apply_changes_has_channels:
  "has_channels st \<Longrightarrow> has_channels (apply_changes now r chs st)"
  by (induction chs arbitrary: st) (auto simp: update_emotion_has_channels)

lemma has_channels_key:
  "has_channels st \<Longrightarrow> k \<in> fst ` set baselines \<Longrightarrow> \<exists>v. emotion_at st k = Inr v"
  unfolding has_channels_iff emotion_at_def by (auto split: option.splits)

lemma tone_ok:
  assumes "has_channels st"
  shows "\<exists>t. get_emotional_tone st = Inr t"
proof -
  have k: "''joy'' \<in> fst ` set baselines" "''sadness'' \<in> fst ` set baselines"
    "''curiosity'' \<in> fst ` set baselines" "''excitement'' \<in> fst ` set baselines"
    "''calmness'' \<in> fst ` set baselines" "''concern'' \<in> fst ` set baselines"
    "''empathy'' \<in> fst ` set baselines"
    by (simp_all add: baselines_def)
  from k[THEN has_channels_key[OF assms]] obtain v1 v2 v3 v4 v5 v6 v7 where
    "emotion_at st ''joy'' = Inr v1" "emotion_at st ''sadness'' = Inr v2"
    "emotion_at st ''curiosity'' = Inr v3" "emotion_at st ''excitement'' = Inr v4"
    "emotion_at st ''calmness'' = Inr v5" "emotion_at st ''concern'' = Inr v6"
    "emotion_at st ''empathy'' = Inr v7"
    by blast
  then show ?thesis by (simp add: get_emotional_tone_def)
qed

lemma auto_decay_ok:
  assumes h: "has_channels (state eng)"
  shows "\<exists>eng1. auto_decay now eng = Inr eng1 \<and> has_channels (state eng1)
          \<and> emotion_triggers eng1 = emotion_triggers eng
          \<and> stability (state eng1) = stability (state eng)
          \<and> (\<not> now - last_decay eng > timedelta_minutes 5 \<longrightarrow> eng1 = eng)
          \<and> (\<forall>e b c. map_of baselines e = Some b \<longrightarrow> map_of (emotions (state eng)) e = Some c \<longrightarrow> c < 1 \<longrightarrow>
                (\<exists>c1. map_of (emotions (state eng1)) e = Some c1 \<and> c1 < 1))"
proof (cases "now - last_decay eng > timedelta_minutes 5")
  case False
  then show ?thesis using h by (simp add: auto_decay_def)
next
  case True
  let ?r = "min 0.05 (total_seconds (now - last_decay eng) / 3600)"
  have r0: "0 \<le> ?r" using True by (simp add: total_seconds_def timedelta_minutes_def)
  have r1: "?r \<le> 1" by simp
  from decay_emotions_ok[OF h, of ?r] obtain st' where
    d: "decay_emotions ?r (state eng) = Inr st'" and h': "has_channels st'" by blast
  have stab: "stability st' = stability (state eng)"
    using d by (auto simp: decay_emotions_def split: sum.splits)
  have lt: "\<exists>c1. map_of (emotions st') e = Some c1 \<and> c1 < 1"
    if b: "map_of baselines e = Some b" and c: "map_of (emotions (state eng)) e = Some c" and c1: "c < 1"
    for e b c
  proof -
    have v: "map_of (emotions st') e = Some (decay_value ?r b c)"
      using decay_emotions_lookup[OF d b] c by simp
    have br: "0 \<le> b" "b \<le> 1" using baselines_range[OF b] by simp_all
    have "b < 1" using b by (auto simp: baselines_def split: if_splits)
    with decay_value_between[OF r0 r1 br, of c] c1 have "decay_value ?r b c < 1" by linarith
    with v show ?thesis by blast
  qed
  have "auto_decay now eng = Inr (eng\<lparr>state := st', last_decay := now\<rparr>)"
    using True d by (simp add: auto_decay_def Let_def)
  then show ?thesis using h' stab lt True by auto
qed

lemma raise_strict:
  fixes s v d :: real
  assumes "0 \<le> s" "s \<le> 1" "v < 1" "0 < d"
  shows "v < max 0 (min 1 (v + d * (1 - s * 0.5)))"
proof -
  have "0 < 1 - s * 0.5" using assms(2) by simp
  then have "0 < d * (1 - s * 0.5)" using assms(4) by (rule mult_pos_pos[rotated])
  then show ?thesis using assms(3) by (simp add: max_def min_def)
qed

text \<open>
  Claim C5, as amended. Take an engine with the trigger table of its constructor, a state
  holding every channel, stability between 0 and 1, and joy and affection strictly below 1.
  \<open>process_input("Thank you so much!")\<close> returns; its idle decay pass, which runs when
  more than five minutes have passed since the last one, leaves joy and affection strictly
  below 1, and leaves them unchanged when it does not run; the text hits the gratitude
  trigger once, so the intensity is \<open>min (1 * 0.1) 0.3\<close>; and joy and affection end
  strictly above their values after the decay pass (their values before the call when the
  pass does not run), each at \<open>max 0 (min 1 (value + change * (1 - stability * 0.5)))\<close>
  where the change is the trigger delta times the intensity, clamped to [-0.5, 0.5].
\<close>

theorem process_input_thank_you:
  assumes t: "emotion_triggers eng = setup_triggers"
    and h: "has_channels (state eng)"
    and s: "0 \<le> stability (state eng)" "stability (state eng) \<le> 1"
    and j: "map_of (emotions (state eng)) ''joy'' = Some j" "j < 1"
    and a: "map_of (emotions (state eng)) ''affection'' = Some a" "a < 1"
  shows "\<exists>eng1 j1 a1 res eng' j' a'.
           auto_decay now eng = Inr eng1
         \<and> map_of (emotions (state eng1)) ''joy'' = Some j1
         \<and> map_of (emotions (state eng1)) ''affection'' = Some a1
         \<and> (\<not> now - last_decay eng > timedelta_minutes 5 \<longrightarrow> j1 = j \<and> a1 = a)
         \<and> process_input now ''Thank you so much!'' '''' eng = Inr (res, eng')
         \<and> emotional_response res = [(''joy'', 0.3 * min (1 * 0.1) 0.3),
                                       (''affection'', 0.2 * min (1 * 0.1) 0.3),
                                       (''calmness'', 0.1 * min (1 * 0.1) 0.3)]
         \<and> map_of (emotions (state eng')) ''joy'' = Some j'
         \<and> map_of (emotions (state eng')) ''affection'' = Some a'
         \<and> j' = max 0 (min 1 (j1 + max (- 0.5) (min 0.5 (0.3 * min (1 * 0.1) 0.3))
                                   * (1 - stability (state eng) * 0.5)))
         \<and> a' = max 0 (min 1 (a1 + max (- 0.5) (min 0.5 (0.2 * min (1 * 0.1) 0.3))
                                   * (1 - stability (state eng) * 0.5)))
         \<and> j1 < j' \<and> a1 < a'"
proof -
  from auto_decay_ok[OF h, of now] obtain eng1 where
    d: "auto_decay now eng = Inr eng1" and h1: "has_channels (state eng1)"
    and t1: "emotion_triggers eng1 = emotion_triggers eng"
    and s1: "stability (state eng1) = stability (state eng)"
    and same: "\<not> now - last_decay eng > timedelta_minutes 5 \<longrightarrow> eng1 = eng"
    and lt: "\<forall>e b c. map_of baselines e = Some b \<longrightarrow> map_of (emotions (state eng)) e = Some c \<longrightarrow> c < 1 \<longrightarrow>
                (\<exists>c1. map_of (emotions (state eng1)) e = Some c1 \<and> c1 < 1)"
    by blast
  have bj: "map_of baselines ''joy'' = Some 0.6" and ba: "map_of baselines ''affection'' = Some 0.8"
    by (simp_all add: baselines_def)
  from lt bj j obtain j1 where j1: "map_of (emotions (state eng1)) ''joy'' = Some j1" "j1 < 1" by blast
  from lt ba a obtain a1 where a1: "map_of (emotions (state eng1)) ''affection'' = Some a1" "a1 < 1" by blast
  have same': "\<not> now - last_decay eng > timedelta_minutes 5 \<longrightarrow> j1 = j \<and> a1 = a"
    using same j a j1 a1 by auto
  let ?reason = "''Response to: '' @ take 30 ''Thank you so much!'' @ ''...''"
  let ?resp = "[(''joy'', 3/100), (''affection'', 2/100), (''calmness'', 1/100)] :: (string \<times> real) list"
  let ?st = "apply_changes now ?reason ?resp (state eng1)"
  have resp: "analyze_emotional_content (emotion_triggers eng1) ''Thank you so much!'' '''' = ?resp"
    using t t1 analyze_thank_you by simp
  have hst: "has_channels ?st" by (rule apply_changes_has_channels[OF h1])
  from tone_ok[OF hst] obtain tn where tn: "get_emotional_tone ?st = Inr tn" by blast
  let ?res = "\<lparr> emotional_response = ?resp, new_state = get_dominant_emotions 3 ?st, tone = tn \<rparr>"
  have p: "process_input now ''Thank you so much!'' '''' eng = Inr (?res, eng1\<lparr> state := ?st \<rparr>)"
    using d resp tn by (simp add: process_input_def Let_def)
  let ?j' = "max 0 (min 1 (j1 + 3/100 * (1 - stability (state eng) * 0.5)))"
  let ?a' = "max 0 (min 1 (a1 + 2/100 * (1 - stability (state eng) * 0.5)))"
  have lj: "map_of (emotions ?st) ''joy'' = Some ?j'"
    using j1(1) s1 by (simp add: update_emotion_lookup update_emotion_stability)
  have la: "map_of (emotions ?st) ''affection'' = Some ?a'"
    using a1(1) s1 by (simp add: update_emotion_lookup update_emotion_stability)
  have gj: "j1 < ?j'" by (rule raise_strict[OF s j1(2)]) simp
  have ga: "a1 < ?a'" by (rule raise_strict[OF s a1(2)]) simp
  have e1: "max (- 0.5) (min 0.5 (0.3 * min (1 * 0.1) 0.3)) = (3/100 :: real)"
    and e2: "max (- 0.5) (min 0.5 (0.2 * min (1 * 0.1) 0.3)) = (2/100 :: real)"
    and e3: "?resp = [(''joy'', 0.3 * min (1 * 0.1) 0.3),
                                       (''affection'', 0.2 * min (1 * 0.1) 0.3),
                                       (''calmness'', 0.1 * min (1 * 0.1) 0.3)]"
    by simp_all
  show ?thesis
    apply (rule exI[of _ eng1], rule exI[of _ j1], rule exI[of _ a1], rule exI[of _ ?res],
        rule exI[of _ "eng1\<lparr> state := ?st \<rparr>"], rule exI[of _ ?j'], rule exI[of _ ?a'])
    unfolding e1 e2
    using d j1(1) a1(1) same' p lj la gj ga e3 by simp
qed


theorem process_input_thank_you_witness:
  "emotion_triggers (EmotionEngine 0) = setup_triggers
   \<and> has_channels (state (EmotionEngine 0))
   \<and> 0 \<le> stability (state (EmotionEngine 0)) \<and> stability (state (EmotionEngine 0)) \<le> 1
   \<and> map_of (emotions (state (EmotionEngine 0))) ''joy'' = Some (3/5) \<and> (3/5 :: real) < 1
   \<and> map_of (emotions (state (EmotionEngine 0))) ''affection'' = Some (4/5) \<and> (4/5 :: real) < 1
   \<and> (\<exists>res eng'. process_input 1 ''Thank you so much!'' '''' (EmotionEngine 0) = Inr (res, eng')
         \<and> map_of (emotions (state eng')) ''joy'' = Some (309/500)
         \<and> map_of (emotions (state eng')) ''affection'' = Some (203/250))"
proof -
  let ?e = "EmotionEngine 0"
  have t: "emotion_triggers ?e = setup_triggers" by (simp add: EmotionEngine_def)
  have h: "has_channels (state ?e)"
    by (simp add: has_channels_iff dom_map_of_conv_image_fst EmotionEngine_def EmotionalState_def baselines_def)
  have st: "stability (state ?e) = 4/5" by (simp add: EmotionEngine_def EmotionalState_def)
  have s: "0 \<le> stability (state ?e)" "stability (state ?e) \<le> 1" by (simp_all add: st)
  have j: "map_of (emotions (state ?e)) ''joy'' = Some (3/5)" "(3/5 :: real) < 1"
    by (simp_all add: EmotionEngine_def EmotionalState_def)
  have a: "map_of (emotions (state ?e)) ''affection'' = Some (4/5)" "(4/5 :: real) < 1"
    by (simp_all add: EmotionEngine_def EmotionalState_def)
  have nd: "\<not> 1 - last_decay ?e > timedelta_minutes 5"
    by (simp add: EmotionEngine_def timedelta_minutes_def)
  from process_input_thank_you[OF t h s j a, of 1] nd obtain res eng' j' a' where
    p: "process_input 1 ''Thank you so much!'' '''' ?e = Inr (res, eng')"
    and lj: "map_of (emotions (state eng')) ''joy'' = Some j'"
    and la: "map_of (emotions (state eng')) ''affection'' = Some a'"
    and vj: "j' = max 0 (min 1 (3/5 + max (- 0.5) (min 0.5 (0.3 * min (1 * 0.1) 0.3))
                                   * (1 - stability (state ?e) * 0.5)))"
    and va: "a' = max 0 (min 1 (4/5 + max (- 0.5) (min 0.5 (0.2 * min (1 * 0.1) 0.3))
                                   * (1 - stability (state ?e) * 0.5)))"
    by auto
  have "j' = 309/500" unfolding vj st by simp
  moreover have "a' = 203/250" unfolding va st by simp
  ultimately show ?thesis using t h s j a p lj la by blast
qed

text \<open>
  Claim C5 as stated, relative to the values before the call, fails when the decay pass
  runs: with joy at 0.99 and six minutes since the last decay, joy ends at 0.9885.
\<close>

theorem process_input_decay_counterexample:
  "map_of (emotions (state joyful_engine)) ''joy'' = Some (99/100) \<and> (99/100 :: real) < 1
   \<and> map_of (emotions (state joyful_engine)) ''affection'' = Some (4/5) \<and> (4/5 :: real) < 1
   \<and> (case process_input 360000000 ''Thank you so much!'' '''' joyful_engine of
        Inl e \<Rightarrow> False
      | Inr (res, eng') \<Rightarrow> map_of (emotions (state eng')) ''joy'' = Some (1977/2000))
   \<and> (1977/2000 :: real) < 99/100"
proof -
  have "case process_input 360000000 ''Thank you so much!'' '''' joyful_engine of
        Inl e \<Rightarrow> False
      | Inr (res, eng') \<Rightarrow> map_of (emotions (state eng')) ''joy'' = Some (1977/2000)"
    by code_simp
  then show ?thesis
    by (simp add: joyful_engine_def EmotionEngine_def EmotionalState_def)
qed

lemma get_or_zero_update:
  "get_or_zero (AList.update k v d) k' = (if k' = k then v else get_or_zero d k')"
  by (simp add: get_or_zero_def update_conv')

lemma apply_trigger_get:
  "get_or_zero (apply_trigger i deltas ch) k = get_or_zero ch k + i * trigger_weight k deltas"
  by (induction deltas arbitrary: ch)
     (auto simp: get_or_zero_update trigger_weight_def algebra_simps Let_def)

lemma trigger_loop_bounds:
  assumes "\<forall>ty ds. map_of T ty = Some ds \<longrightarrow> 0 \<le> trigger_weight k ds"
  shows "get_or_zero ch k \<le> get_or_zero (trigger_loop T c ws ch) k
       \<and> get_or_zero (trigger_loop T c ws ch) k
           \<le> get_or_zero ch k + 0.3 * total_weight T k ws"
proof (induction ws arbitrary: ch)
  case Nil
  then show ?case by simp
next
  case (Cons p ws)
  obtain ty words where p: "p = (ty, words)" by (cases p)
  let ?m = "length (filter (\<lambda>word. py_in word c) words)"
  have tw: "total_weight T k (p # ws)
      = (case map_of T ty of None \<Rightarrow> 0 | Some ds \<Rightarrow> trigger_weight k ds) + total_weight T k ws"
    by (simp add: p)
  show ?case
  proof (cases "map_of T ty")
    case None
    then have "trigger_loop T c (p # ws) ch = trigger_loop T c ws ch" by (simp add: p)
    then show ?thesis using Cons.IH[of ch] None by (simp add: tw)
  next
    case (Some ds)
    then have w: "0 \<le> trigger_weight k ds" using assms by blast
    have tw': "total_weight T k (p # ws) = trigger_weight k ds + total_weight T k ws"
      by (simp add: tw Some)
    show ?thesis
    proof (cases "?m > 0")
      case False
      then have st: "trigger_loop T c (p # ws) ch = trigger_loop T c ws ch"
        by (simp add: p Some)
      from Cons.IH[of ch]
      have 1: "get_or_zero ch k \<le> get_or_zero (trigger_loop T c ws ch) k"
        and 2: "get_or_zero (trigger_loop T c ws ch) k \<le> get_or_zero ch k + 0.3 * total_weight T k ws"
        by simp_all
      have "0.3 * total_weight T k ws \<le> 0.3 * (trigger_weight k ds + total_weight T k ws)"
        using w by simp
      with 1 2 show ?thesis unfolding st tw' by linarith
    next
      case True
      let ?i = "min (real ?m * 0.1) 0.3"
      have i: "0 \<le> ?i" "?i \<le> 0.3" by simp_all
      have lo: "0 \<le> ?i * trigger_weight k ds" using i(1) w by simp
      have hi: "?i * trigger_weight k ds \<le> 0.3 * trigger_weight k ds"
        using i(2) w by (rule mult_right_mono)
      have st: "trigger_loop T c (p # ws) ch = trigger_loop T c ws (apply_trigger ?i ds ch)"
        using p Some True by (simp add: Let_def)
      from Cons.IH[of "apply_trigger ?i ds ch"]
      have 1: "get_or_zero ch k + ?i * trigger_weight k ds
                 \<le> get_or_zero (trigger_loop T c ws (apply_trigger ?i ds ch)) k"
        and 2: "get_or_zero (trigger_loop T c ws (apply_trigger ?i ds ch)) k
                 \<le> get_or_zero ch k + ?i * trigger_weight k ds + 0.3 * total_weight T k ws"
        by (simp_all add: apply_trigger_get)
      have "0.3 * (trigger_weight k ds + total_weight T k ws)
            = 0.3 * trigger_weight k ds + 0.3 * total_weight T k ws"
        by (simp add: algebra_simps)
      with 1 2 lo hi show ?thesis unfolding st tw' by linarith
    qed
  qed
qed

lemma setup_triggers_weights:
  "map_of setup_triggers ty = Some ds \<Longrightarrow> 0 \<le> trigger_weight k ds"
  by (auto simp: setup_triggers_def trigger_weight_def split: if_splits)

lemma affection_total:
  "total_weight setup_triggers ''affection'' trigger_words = 1/2"
  by (simp add: trigger_words_def setup_triggers_def trigger_weight_def)

lemma trigger_changes_affection:
  "0 \<le> get_or_zero (trigger_changes setup_triggers text context) ''affection''
   \<and> get_or_zero (trigger_changes setup_triggers text context) ''affection'' \<le> 0.15"
  using trigger_loop_bounds[of setup_triggers "''affection''" "[]"
      "lower (text @ '' '' @ context)" trigger_words] setup_triggers_weights
  by (simp add: trigger_changes_def affection_total get_or_zero_def)

lemma get_or_zero_normalize:
  "get_or_zero (normalize_changes ch) k =
     (case map_of ch k of None \<Rightarrow> 0 | Some v \<Rightarrow> max (- 0.5) (min 0.5 v))"
proof -
  have "map_of (normalize_changes ch) k = map_option (\<lambda>v. max (- 0.5) (min 0.5 v)) (map_of ch k)"
    unfolding normalize_changes_def by (induction ch) auto
  then show ?thesis by (simp add: get_or_zero_def split: option.splits)
qed

lemma analyze_affection_richie:
  assumes "py_in ''richie'' (lower text)"
  shows "get_or_zero (analyze_emotional_content setup_triggers text context) ''affection''
         = get_or_zero (trigger_changes setup_triggers text context) ''affection'' + 0.1"
  using assms trigger_changes_affection[of "text" "context"]
  by (simp add: analyze_emotional_content_def Let_def get_or_zero_normalize update_conv')

lemma analyze_affection_plain:
  assumes "\<not> py_in ''richie'' (lower text)"
  shows "get_or_zero (analyze_emotional_content setup_triggers text context) ''affection''
         = get_or_zero (trigger_changes setup_triggers text context) ''affection''"
proof -
  have "get_or_zero (analyze_emotional_content setup_triggers text context) ''affection''
        = (case map_of (trigger_changes setup_triggers text context) ''affection'' of
             None \<Rightarrow> 0 | Some v \<Rightarrow> max (- 0.5) (min 0.5 v))"
    using assms by (simp add: analyze_emotional_content_def Let_def get_or_zero_normalize)
  then show ?thesis
    using trigger_changes_affection[of "text" "context"]
    by (auto simp: get_or_zero_def split: option.splits)
qed

lemma process_input_response:
  assumes "process_input now text context eng = Inr (res, eng')"
  shows "emotional_response res = analyze_emotional_content (emotion_triggers eng) text context"
proof -
  from assms obtain eng1 where d: "auto_decay now eng = Inr eng1"
    by (auto simp: process_input_def split: sum.splits)
  have "emotion_triggers eng1 = emotion_triggers eng"
    using d by (auto simp: auto_decay_def Let_def split: if_splits sum.splits)
  then show ?thesis using assms d
    by (auto simp: process_input_def Let_def split: sum.splits)
qed

text \<open>
  Claim C10. When the text contains "richie", case-insensitively, the affection change
  that \<open>process_input\<close> reports is the trigger table's contribution plus 0.1, the sum
  being taken before the clamp to [-0.5, 0.5] (which it never reaches: the table contributes
  between 0 and 0.15). So it is strictly larger than the affection change reported for any
  text without "richie" that gets the same contributions from the trigger table. The
  comparison does not extend to the same text with the substring removed: removing it can
  join the characters around it into trigger words.
\<close>

theorem richie_adds_affection:
  assumes "py_in ''richie'' (lower text)"
    and "emotion_triggers eng = setup_triggers"
    and "process_input now text context eng = Inr (res, eng')"
  shows "get_or_zero (emotional_response res) ''affection''
           = max (- 0.5) (min 0.5 (get_or_zero (trigger_changes setup_triggers text context) ''affection'' + 0.1))
       \<and> get_or_zero (emotional_response res) ''affection''
           = get_or_zero (trigger_changes setup_triggers text context) ''affection'' + 0.1
       \<and> (\<forall>now2 text2 context2 eng2 res2 eng2'.
             \<not> py_in ''richie'' (lower text2)
           \<and> emotion_triggers eng2 = setup_triggers
           \<and> trigger_changes setup_triggers text2 context2 = trigger_changes setup_triggers text context
           \<and> process_input now2 text2 context2 eng2 = Inr (res2, eng2')
           \<longrightarrow> get_or_zero (emotional_response res2) ''affection''
                 < get_or_zero (emotional_response res) ''affection'')"
proof -
  have r: "emotional_response res = analyze_emotional_content setup_triggers text context"
    using process_input_response[OF assms(3)] assms(2) by simp
  have v: "get_or_zero (emotional_response res) ''affection''
           = get_or_zero (trigger_changes setup_triggers text context) ''affection'' + 0.1"
    unfolding r by (rule analyze_affection_richie[OF assms(1)])
  have c: "max (- 0.5) (min 0.5 (get_or_zero (trigger_changes setup_triggers text context) ''affection'' + 0.1))
           = get_or_zero (trigger_changes setup_triggers text context) ''affection'' + 0.1"
    using trigger_changes_affection[of "text" "context"] by simp
  have other: "get_or_zero (emotional_response res2) ''affection''
                 < get_or_zero (emotional_response res) ''affection''"
    if "\<not> py_in ''richie'' (lower text2)" "emotion_triggers eng2 = setup_triggers"
      "trigger_changes setup_triggers text2 context2 = trigger_changes setup_triggers text context"
      "process_input now2 text2 context2 eng2 = Inr (res2, eng2')"
    for now2 text2 context2 eng2 res2 eng2'
  proof -
    have "emotional_response res2 = analyze_emotional_content setup_triggers text2 context2"
      using process_input_response[OF that(4)] that(2) by simp
    then have "get_or_zero (emotional_response res2) ''affection''
        = get_or_zero (trigger_changes setup_triggers text context) ''affection''"
      using analyze_affection_plain[OF that(1), of context2] that(3) by simp
    then show ?thesis using v by simp
  qed
  show ?thesis using v c other by (simp only:) blast
qed


theorem richie_adds_affection_witness:
  "py_in ''richie'' (lower ''Thank you Richie'')
   \<and> emotion_triggers (EmotionEngine 0) = setup_triggers
   \<and> \<not> py_in ''richie'' (lower ''Thank you'')
   \<and> (\<exists>res eng' res2 eng2'.
          process_input 1 ''Thank you Richie'' '''' (EmotionEngine 0) = Inr (res, eng')
        \<and> process_input 1 ''Thank you'' '''' (EmotionEngine 0) = Inr (res2, eng2')
        \<and> get_or_zero (emotional_response res) ''affection'' = 3/25
        \<and> get_or_zero (emotional_response res2) ''affection''
             < get_or_zero (emotional_response res) ''affection'')"
proof -
  have ri: "py_in ''richie'' (lower ''Thank you Richie'')" by code_simp
  have nr: "\<not> py_in ''richie'' (lower ''Thank you'')" by code_simp
  have t: "emotion_triggers (EmotionEngine 0) = setup_triggers" by (simp add: EmotionEngine_def)
  have "case process_input 1 ''Thank you Richie'' '''' (EmotionEngine 0) of
          Inl e \<Rightarrow> False | Inr r \<Rightarrow> True"
    by code_simp
  then obtain res eng' where
    p: "process_input 1 ''Thank you Richie'' '''' (EmotionEngine 0) = Inr (res, eng')"
    by (auto split: sum.splits)
  have "case process_input 1 ''Thank you'' '''' (EmotionEngine 0) of
          Inl e \<Rightarrow> False | Inr r \<Rightarrow> True"
    by code_simp
  then obtain res2 eng2' where
    p2: "process_input 1 ''Thank you'' '''' (EmotionEngine 0) = Inr (res2, eng2')"
    by (auto split: sum.splits)
  have tc: "get_or_zero (trigger_changes setup_triggers ''Thank you Richie'' '''') ''affection'' = 1/50"
    by code_simp
  have same: "trigger_changes setup_triggers ''Thank you'' ''''
                = trigger_changes setup_triggers ''Thank you Richie'' ''''"
    by code_simp
  note T = richie_adds_affection[OF ri t p]
  from T have v: "get_or_zero (emotional_response res) ''affection'' = 3/25"
    by (simp add: tc)
  from T nr t same p2 have "get_or_zero (emotional_response res2) ''affection''
             < get_or_zero (emotional_response res) ''affection''"
    by blast
  with ri nr t p p2 v show ?thesis by blast
qed

text \<open>
  The text \<open>"lorichieve lirichieke carichiere thrichieank"\<close> contains "richie" and no
  trigger word, so its affection change is 0.1. Without the substring it reads
  \<open>"love like care thank"\<close>: three affection words and one gratitude word, an
  affection change of \<open>0.2 * 0.1 + 0.3 * 0.3 = 0.11\<close>, which is larger.
\<close>

theorem richie_removed_counterexample:
  "py_in ''richie'' (lower ''lorichieve lirichieke carichiere thrichieank'')
   \<and> replace_str ''richie'' [] ''lorichieve lirichieke carichiere thrichieank'' = ''love like care thank''
   \<and> \<not> py_in ''richie'' (lower ''love like care thank'')
   \<and> (case process_input 1 ''lorichieve lirichieke carichiere thrichieank'' [] (EmotionEngine 0) of
        Inl e \<Rightarrow> False
      | Inr (res, eng') \<Rightarrow> get_or_zero (emotional_response res) ''affection'' = 1/10)
   \<and> (case process_input 1 ''love like care thank'' [] (EmotionEngine 0) of
        Inl e \<Rightarrow> False
      | Inr (res, eng') \<Rightarrow> get_or_zero (emotional_response res) ''affection'' = 11/100)"
  by code_simp

subsection \<open>The fallback chain and switching\<close>

lemma good_general: "good_templates general_templates"
  by (simp add: good_templates_def general_templates_def)

lemma good_empathy: "good_templates empathy_starters"
  by (simp add: good_templates_def empathy_starters_def)

lemma good_emotion: "map_of emotion_responses k = Some xs \<Longrightarrow> good_templates xs"
  by (auto simp: good_templates_def emotion_responses_def split: if_splits)

lemma good_personality: "map_of personality_responses k = Some xs \<Longrightarrow> good_templates xs"
  by (auto simp: good_templates_def personality_responses_def split: if_splits)

lemma random_choice_good:
  assumes "good_templates xs"
  shows "\<exists>s. random_choice r xs = Inr s \<and> s \<noteq> []"
proof -
  from assms have ne: "xs \<noteq> []" and all: "\<forall>s\<in>set xs. s \<noteq> []"
    by (simp_all add: good_templates_def list_all_iff)
  then have "xs ! (r mod length xs) \<in> set xs" by simp
  with all ne show ?thesis by (auto simp: random_choice_def)
qed

lemma replace_str_nonempty: "s \<noteq> [] \<Longrightarrow> new \<noteq> [] \<Longrightarrow> replace_str old new s \<noteq> []"
  by (cases s) auto

lemma add_excitement_nonempty: "s \<noteq> [] \<Longrightarrow> add_excitement s \<noteq> []"
  by (simp add: add_excitement_def Let_def replace_str_nonempty)

lemma add_creativity_nonempty: "s \<noteq> [] \<Longrightarrow> add_creativity s \<noteq> []"
  by (simp add: add_creativity_def replace_str_nonempty)

lemma add_empathy_ok: "s \<noteq> [] \<Longrightarrow> \<exists>t. add_empathy r s = Inr t \<and> t \<noteq> []"
  using random_choice_good[OF good_empathy, of r] by (auto simp: add_empathy_def)

lemma first_response_ok:
  "\<exists>s. (case d of Some emotion \<Rightarrow> get_emotion_response r emotion
          | None \<Rightarrow> get_personality_response r (PStr p)) = Inr s \<and> s \<noteq> []"
proof (cases d)
  case None
  have "good_templates (case map_of personality_responses p of Some xs \<Rightarrow> xs | None \<Rightarrow> general_templates)"
    using good_general good_personality by (auto split: option.splits)
  from random_choice_good[OF this, of r] None show ?thesis
    by (simp add: get_personality_response_def py_hashable_def)
next
  case (Some e)
  have "good_templates (case map_of emotion_responses e of Some xs \<Rightarrow> xs | None \<Rightarrow> general_templates)"
    using good_general good_emotion by (auto split: option.splits)
  from random_choice_good[OF this, of r] Some show ?thesis
    by (simp add: get_emotion_response_def)
qed

lemma text_context_values:
  assumes "text_context ctx"
  shows "\<exists>es ps. (case ctx ''emotions'' of None \<Rightarrow> PStr [] | Some v \<Rightarrow> v) = PStr es
               \<and> (case ctx ''personality'' of None \<Rightarrow> PStr ''balanced'' | Some v \<Rightarrow> v) = PStr ps"
  using assms by (auto simp: text_context_def split: option.splits py_value.splits)

lemma analyze_and_respond_ok:
  assumes "text_context ctx"
  shows "\<exists>s. analyze_and_respond r1 r2 prompt ctx = Inr s \<and> s \<noteq> []"
proof -
  from text_context_values[OF assms] obtain es ps where
    es: "(case ctx ''emotions'' of None \<Rightarrow> PStr [] | Some v \<Rightarrow> v) = PStr es"
    and ps: "(case ctx ''personality'' of None \<Rightarrow> PStr ''balanced'' | Some v \<Rightarrow> v) = PStr ps"
    by blast
  from first_response_ok[where d = "detect_emotion (lower prompt) emotion_keywords" and r = r1 and p = ps]
  obtain s where s: "(case detect_emotion (lower prompt) emotion_keywords of
            Some emotion \<Rightarrow> get_emotion_response r1 emotion
          | None \<Rightarrow> get_personality_response r1 (PStr ps)) = Inr s" "s \<noteq> []"
    by blast
  from add_empathy_ok[OF s(2), of r2] obtain t where t: "add_empathy r2 s = Inr t" "t \<noteq> []" by blast
  show ?thesis
    using s t add_excitement_nonempty[OF s(2)] add_creativity_nonempty[OF s(2)]
    by (auto simp: analyze_and_respond_def Let_def es ps py_contains_def split: bool.splits)
qed

lemma local_generate:
  "p_class p = LocalProvider \<Longrightarrow>
   p_generate w k r prompt ctx p = analyze_and_respond (choice1 w k) (choice2 w k) prompt ctx"
  by (simp add: p_generate_def)

lemma same_kind_refl: "same_kind p p"
  by (simp add: same_kind_def)

lemma add_to_history_kind: "add_to_history u a p = (e, p') \<Longrightarrow> same_kind p' p"
  by (auto simp: add_to_history_def Let_def same_kind_def split: py_value.splits if_splits)

lemma kept_refl: "kept m m"
  by (simp add: kept_def same_kind_refl)

lemma kept_trans: "kept m m1 \<Longrightarrow> kept m1 m2 \<Longrightarrow> kept m m2"
  by (auto simp: kept_def same_kind_def)

lemma kept_active: "kept m (m\<lparr> active_provider := a \<rparr>)"
  by (simp add: kept_def same_kind_refl)

lemma record_exchange_kept:
  assumes "record_exchange r prompt response m = (e, m')"
  shows "kept m m'"
proof -
  obtain e' p where a: "add_to_history prompt response (objects m ! r) = (e', p)"
    by (cases "add_to_history prompt response (objects m ! r)")
  then have m': "m' = m\<lparr> objects := (objects m)[r := p] \<rparr>"
    using assms by (simp add: record_exchange_def)
  have k: "same_kind p (objects m ! r)" by (rule add_to_history_kind[OF a])
  have "same_kind ((objects m)[r := p] ! r') (objects m ! r')" for r'
  proof (cases "r < length (objects m)")
    case True
    then show ?thesis using k by (cases "r' = r") (simp_all add: same_kind_refl)
  next
    case False
    then show ?thesis by (simp add: list_update_beyond same_kind_refl)
  qed
  then show ?thesis by (simp add: kept_def m')
qed

lemma record_exchange_ok:
  assumes "record_exchange r prompt response m = (e, m')" "max_history (objects m ! r) = PInt n"
  shows "e = None"
  using assms by (auto simp: record_exchange_def add_to_history_def Let_def split: prod.splits if_splits)

lemma kept_fields:
  assumes "kept m m'"
  shows "p_class (objects m' ! r) = p_class (objects m ! r)"
    and "max_history (objects m' ! r) = max_history (objects m ! r)"
    and "is_available (objects m' ! r) = is_available (objects m ! r)"
    and "p_generate w k r prompt ctx (objects m' ! r) = p_generate w k r prompt ctx (objects m ! r)"
    and "fallback_provider m' = fallback_provider m"
    and "providers m' = providers m"
proof -
  from assms have s: "same_kind (objects m' ! r) (objects m ! r)" by (simp add: kept_def)
  then show "p_class (objects m' ! r) = p_class (objects m ! r)"
    and "max_history (objects m' ! r) = max_history (objects m ! r)"
    and "is_available (objects m' ! r) = is_available (objects m ! r)"
    and "p_generate w k r prompt ctx (objects m' ! r) = p_generate w k r prompt ctx (objects m ! r)"
    by (simp_all add: same_kind_def is_available_def p_generate_def split: provider_class.splits)
  from assms show "fallback_provider m' = fallback_provider m" and "providers m' = providers m"
    by (simp_all add: kept_def)
qed

lemma fails_kept: "kept m m' \<Longrightarrow> fails w prompt ctx m' r = fails w prompt ctx m r"
  by (simp add: fails_def kept_fields)

lemma try_active_local:
  assumes "others_fail w prompt ctx m" "try_active w prompt ctx m = (res, m')"
  shows "kept m m'"
    and "res = Some response \<Longrightarrow>
         Inr response = analyze_and_respond (choice1 w 0) (choice2 w 0) prompt ctx"
proof -
  show "kept m m'"
    using assms(2) record_exchange_kept kept_refl
    by (auto simp: try_active_def split: option.splits if_splits sum.splits prod.splits)
  assume r: "res = Some response"
  with assms(2) obtain a where a: "active_provider m = Some a" "is_available (objects m ! a)"
    "p_generate w 0 a prompt ctx (objects m ! a) = Inr response"
    by (auto simp: try_active_def split: option.splits if_splits sum.splits prod.splits)
  have "p_class (objects m ! a) = LocalProvider"
  proof (rule ccontr)
    assume "p_class (objects m ! a) \<noteq> LocalProvider"
    then have "fails w prompt ctx m a"
      using assms(1) a(1) by (simp add: others_fail_def candidates_def)
    then show False using a(2,3) by (simp add: fails_def)
  qed
  then show "Inr response = analyze_and_respond (choice1 w 0) (choice2 w 0) prompt ctx"
    using a(3) local_generate by simp
qed

lemma nonlocal_generate:
  "p_class p \<noteq> LocalProvider \<Longrightarrow> p_generate w k r prompt ctx p = p_generate w 0 r prompt ctx p"
  by (simp add: p_generate_def split: provider_class.splits)

lemma try_providers_local:
  assumes "\<forall>r\<in>set rs. p_class (objects m ! r) \<noteq> LocalProvider \<longrightarrow> fails w prompt ctx m r"
    "try_providers w prompt ctx k rs m = (res, m')"
  shows "kept m m' \<and> (\<forall>response. res = Some response \<longrightarrow>
           (\<exists>j. Inr response = analyze_and_respond (choice1 w j) (choice2 w j) prompt ctx))"
  using assms
proof (induction rs arbitrary: k m)
  case Nil
  then show ?case by (simp add: kept_refl)
next
  case (Cons r rs)
  have rest: "\<forall>r\<in>set rs. p_class (objects m ! r) \<noteq> LocalProvider \<longrightarrow> fails w prompt ctx m r"
    using Cons.prems(1) by simp
  show ?case
  proof (cases "Some r \<noteq> active_provider m \<and> is_available (objects m ! r)
                  \<and> \<not> isl (p_generate w k r prompt ctx (objects m ! r))")
    case True
    then obtain resp where g: "p_generate w k r prompt ctx (objects m ! r) = Inr resp"
      by (cases "p_generate w k r prompt ctx (objects m ! r)") auto
    have loc: "p_class (objects m ! r) = LocalProvider"
    proof (rule ccontr)
      assume n: "p_class (objects m ! r) \<noteq> LocalProvider"
      then have "fails w prompt ctx m r" using Cons.prems(1) by simp
      then show False using True g nonlocal_generate[OF n, of w k r prompt ctx]
        by (simp add: fails_def)
    qed
    have resp: "Inr resp = analyze_and_respond (choice1 w k) (choice2 w k) prompt ctx"
      using g local_generate[OF loc] by simp
    obtain e m1 where x: "record_exchange r prompt resp (m\<lparr> active_provider := Some r \<rparr>) = (e, m1)"
      by (cases "record_exchange r prompt resp (m\<lparr> active_provider := Some r \<rparr>)")
    have k1: "kept m m1"
      using kept_trans[OF kept_active record_exchange_kept[OF x]] .
    show ?thesis
    proof (cases e)
      case None
      then have "res = Some resp" "m' = m1" using Cons.prems(2) True g x by simp_all
      then show ?thesis using k1 resp by blast
    next
      case (Some err)
      then have t: "try_providers w prompt ctx (Suc k) rs m1 = (res, m')"
        using Cons.prems(2) True g x by simp
      have "\<forall>r\<in>set rs. p_class (objects m1 ! r) \<noteq> LocalProvider \<longrightarrow> fails w prompt ctx m1 r"
        using rest by (simp add: kept_fields(1)[OF k1] fails_kept[OF k1])
      from Cons.IH[OF this t] kept_trans[OF k1] show ?thesis by blast
    qed
  next
    case False
    then have "try_providers w prompt ctx k (r # rs) m = try_providers w prompt ctx (Suc k) rs m"
      by (cases "p_generate w k r prompt ctx (objects m ! r)") auto
    then show ?thesis using Cons.IH[OF rest, of "Suc k"] Cons.prems(2) by simp
  qed
qed

text \<open>
  Claim C3, as amended. On an initialised manager whose fallback provider has an integer
  \<open>max_history\<close>, for every prompt and every context that holds strings under
  \<open>emotions\<close> and \<open>personality\<close>, and whatever the backends do: when every provider
  other than a local one that \<open>generate_response\<close> tries (the active provider and the
  providers of the list) reports unavailable or raises, \<open>generate_response\<close> returns a
  response, the response is not empty, and it is a local provider's. On such a context a
  local provider's \<open>generate_response\<close> never raises and never returns an empty string
  (lemma \<open>analyze_and_respond_ok\<close>), and \<open>initialize\<close> always leaves an initialised
  manager (lemma \<open>initialize_initialized\<close>).
\<close>

theorem generate_response_falls_back:
  assumes "initialized m" "history_ok m" "text_context ctx" "others_fail w prompt ctx m"
  shows "\<exists>response m' k. generate_response w prompt ctx m = (Inr response, m')
           \<and> response \<noteq> []
           \<and> Inr response = analyze_and_respond (choice1 w k) (choice2 w k) prompt ctx"
proof -
  have ok: "\<exists>s. analyze_and_respond (choice1 w j) (choice2 w j) prompt ctx = Inr s \<and> s \<noteq> []" for j
    by (rule analyze_and_respond_ok[OF assms(3)])
  from assms(1) obtain f where f: "fallback_provider m = Some f" "p_class (objects m ! f) = LocalProvider"
    and i: "manager_initialized m"
    by (auto simp: initialized_def split: option.splits)
  from assms(2) f(1) obtain n where n: "max_history (objects m ! f) = PInt n"
    by (auto simp: history_ok_def split: py_value.splits)
  have all: "\<forall>r\<in>set (providers m). p_class (objects m ! r) \<noteq> LocalProvider \<longrightarrow> fails w prompt ctx m r"
    using assms(4) by (simp add: others_fail_def candidates_def list_all_iff)
  obtain res1 m1 where a: "try_active w prompt ctx m = (res1, m1)"
    by (cases "try_active w prompt ctx m")
  note k1 = try_active_local(1)[OF assms(4) a]
  show ?thesis
  proof (cases res1)
    case (Some response)
    from try_active_local(2)[OF assms(4) a Some]
    have r: "Inr response = analyze_and_respond (choice1 w 0) (choice2 w 0) prompt ctx" .
    with ok[of 0] have "response \<noteq> []" by auto
    moreover have "generate_response w prompt ctx m = (Inr response, m1)"
      using i a Some by (simp add: generate_response_def)
    ultimately show ?thesis using r by blast
  next
    case None
    obtain res2 m2 where b: "try_providers w prompt ctx 1 (providers m1) m1 = (res2, m2)"
      by (cases "try_providers w prompt ctx 1 (providers m1) m1")
    have all1: "\<forall>r\<in>set (providers m1). p_class (objects m1 ! r) \<noteq> LocalProvider \<longrightarrow> fails w prompt ctx m1 r"
      using all by (simp add: kept_fields(1,6)[OF k1] fails_kept[OF k1])
    from try_providers_local[OF all1 b] have k2: "kept m1 m2"
      and r2: "\<forall>response. res2 = Some response \<longrightarrow>
           (\<exists>j. Inr response = analyze_and_respond (choice1 w j) (choice2 w j) prompt ctx)"
      by blast+
    show ?thesis
    proof (cases res2)
      case (Some response)
      with r2 obtain j where
        r: "Inr response = analyze_and_respond (choice1 w j) (choice2 w j) prompt ctx" by blast
      with ok[of j] have "response \<noteq> []" by auto
      moreover have "generate_response w prompt ctx m = (Inr response, m2)"
        using i a None b Some by (simp add: generate_response_def)
      ultimately show ?thesis using r by blast
    next
      case n2: None
      note k = kept_trans[OF k1 k2]
      let ?j = "Suc (length (providers m2))"
      have f2: "fallback_provider m2 = Some f" "p_class (objects m2 ! f) = LocalProvider"
        "max_history (objects m2 ! f) = PInt n"
        using f n by (simp_all add: kept_fields[OF k])
      from ok[of ?j] obtain s where
        s: "analyze_and_respond (choice1 w ?j) (choice2 w ?j) prompt ctx = Inr s" "s \<noteq> []" by blast
      have g: "p_generate w ?j f prompt ctx (objects m2 ! f) = Inr s"
        using local_generate[OF f2(2)] s(1) by simp
      obtain e m3 where x: "record_exchange f prompt s m2 = (e, m3)"
        by (cases "record_exchange f prompt s m2")
      have "e = None" by (rule record_exchange_ok[OF x f2(3)])
      then have "generate_response w prompt ctx m = (Inr s, m3)"
        using i a None b n2 f2(1) g x by (simp add: generate_response_def)
      then show ?thesis using s by metis
    qed
  qed
qed


lemma create_and_initialize_props:
  assumes "create_and_initialize w t cfg m = (ok, r, m1)"
  shows "r = length (objects m)" and "\<exists>p. objects m1 = objects m @ [p] \<and> p_class p = p_class (create_provider t cfg)"
    and "fallback_provider m1 = fallback_provider m" and "manager_initialized m1 = manager_initialized m"
    and "active_provider m1 = active_provider m" and "providers m1 = providers m"
    and "provider_configs m1 = provider_configs m"
  using assms
  by (auto simp: create_and_initialize_def p_initialize_def Let_def
      split: prod.splits provider_class.splits if_splits)

lemma initialize_loop_keeps:
  "fallback_provider (initialize_loop w names m) = fallback_provider m
   \<and> (\<exists>ext. objects (initialize_loop w names m) = objects m @ ext)"
proof (induction names arbitrary: m)
  case Nil
  then show ?case by simp
next
  case (Cons n names)
  show ?case
  proof (cases "n = ''local''")
    case True
    then show ?thesis using Cons.IH[of m] by simp
  next
    case False
    let ?cfg = "case provider_configs m n of None \<Rightarrow> Map.empty | Some c \<Rightarrow> c"
    obtain ok r m1 where c: "create_and_initialize w n ?cfg m = (ok, r, m1)"
      by (cases "create_and_initialize w n ?cfg m") auto
    note p = create_and_initialize_props[OF c]
    let ?m2 = "m1\<lparr> providers := providers m1 @ [r],
                     active_provider := (case active_provider m1 of None \<Rightarrow> Some r | Some a \<Rightarrow> Some a) \<rparr>"
    have "initialize_loop w (n # names) m = initialize_loop w names (if ok then ?m2 else m1)"
      using False c by simp
    moreover have "fallback_provider (if ok then ?m2 else m1) = fallback_provider m"
      using p(3) by simp
    moreover have "\<exists>ext. objects (if ok then ?m2 else m1) = objects m @ ext"
      using p(2) by auto
    ultimately show ?thesis
      using Cons.IH[of "if ok then ?m2 else m1"] by (metis append.assoc)
  qed
qed

lemma initialize_initialized: "initialized (snd (initialize w m))"
proof -
  let ?cfg = "case provider_configs m ''local'' of None \<Rightarrow> Map.empty | Some c \<Rightarrow> c"
  obtain ok f m1 where c: "create_and_initialize w ''local'' ?cfg m = (ok, f, m1)"
    by (cases "create_and_initialize w ''local'' ?cfg m") auto
  note p = create_and_initialize_props[OF c]
  have cl: "p_class (create_provider ''local'' ?cfg) = LocalProvider"
    by (simp add: create_provider_def new_provider_def lower_def lower_char_def)
  let ?m2 = "m1\<lparr> fallback_provider := Some f \<rparr>"
  let ?m3 = "initialize_loop w (preferred_providers ?m2) ?m2"
  from initialize_loop_keeps[of w "preferred_providers ?m2" ?m2] obtain ext where
    k: "fallback_provider ?m3 = Some f" "objects ?m3 = objects m1 @ ext" by auto
  from p(1,2) cl have o: "f < length (objects m1)" "p_class (objects m1 ! f) = LocalProvider"
    by auto
  have o3: "f < length (objects ?m3)" "p_class (objects ?m3 ! f) = LocalProvider"
    using o k(2) by (simp_all add: nth_append)
  have "snd (initialize w m) =
      (case active_provider ?m3 of None \<Rightarrow> ?m3\<lparr> active_provider := fallback_provider ?m3 \<rparr>
       | Some a \<Rightarrow> ?m3)\<lparr> manager_initialized := True \<rparr>"
    using c by (simp add: initialize_def Let_def)
  then show ?thesis using k(1) o3
    by (auto simp: initialized_def split: option.splits)
qed

theorem generate_response_falls_back_witness:
  "initialized demo_manager
   \<and> history_ok demo_manager
   \<and> text_context (map_of [(''emotions'', PStr ''excited'')])
   \<and> others_fail demo_world ''Hello'' (map_of [(''emotions'', PStr ''excited'')]) demo_manager
   \<and> candidates demo_manager = [2, 2]
   \<and> p_class (objects demo_manager ! 2) = OllamaProvider
   \<and> is_available (objects demo_manager ! 2)
   \<and> (\<exists>response m'. generate_response demo_world ''Hello'' (map_of [(''emotions'', PStr ''excited'')])
                        demo_manager = (Inr response, m')
         \<and> response \<noteq> []
         \<and> Inr response = analyze_and_respond 0 0 ''Hello'' (map_of [(''emotions'', PStr ''excited'')]))"
proof -
  let ?ctx = "map_of [(''emotions'', PStr ''excited'')]"
  have i: "initialized demo_manager" by (simp add: demo_manager_def initialize_initialized)
  have h: "history_ok demo_manager" by code_simp
  have t: "text_context ?ctx" by (simp add: text_context_def)
  have o: "others_fail demo_world ''Hello'' ?ctx demo_manager" by code_simp
  have c: "candidates demo_manager = [2, 2]" by code_simp
  have k: "p_class (objects demo_manager ! 2) = OllamaProvider" by code_simp
  have a: "is_available (objects demo_manager ! 2)" by code_simp
  have w: "choice1 demo_world = (\<lambda>k. 0)" "choice2 demo_world = (\<lambda>k. 0)" by (simp_all add: demo_world_def)
  from generate_response_falls_back[OF i h t o] c k a i h t o show ?thesis
    unfolding w by blast
qed

text \<open>
  Claim C3 as stated, for every context, fails. The contexts of \<open>brain.py\<close> hold dicts;
  with a dict under \<open>personality\<close> and a prompt that has none of the local provider's
  keywords, the local provider raises \<open>TypeError\<close> when it looks the dict up in its table
  of personalities, and the final fallback of \<open>generate_response\<close>, which is outside every
  \<open>try\<close>, lets the error leave the call.
\<close>

theorem generate_response_raises_counterexample:
  "initialized demo_manager
   \<and> history_ok demo_manager
   \<and> others_fail demo_world ''Hmm'' dict_context demo_manager
   \<and> dict_context ''personality'' = Some (PDict [(''current_mood'', PStr ''curious'')])
   \<and> analyze_and_respond 0 0 ''Hmm'' dict_context = Inl TypeError
   \<and> fst (generate_response demo_world ''Hmm'' dict_context demo_manager) = Inl TypeError"
proof -
  have i: "initialized demo_manager" by (simp add: demo_manager_def initialize_initialized)
  have h: "history_ok demo_manager" by code_simp
  have o: "others_fail demo_world ''Hmm'' dict_context demo_manager" by code_simp
  have d: "dict_context ''personality'' = Some (PDict [(''current_mood'', PStr ''curious'')])"
    by (simp add: dict_context_def)
  have a: "analyze_and_respond 0 0 ''Hmm'' dict_context = Inl TypeError" by code_simp
  have g: "fst (generate_response demo_world ''Hmm'' dict_context demo_manager) = Inl TypeError"
    by code_simp
  from i h o d a g show ?thesis by blast
qed

text \<open>
  The same happens on a context of strings when the local provider is configured with a
  \<open>max_history\<close> that is not a number: \<open>add_to_history\<close> raises \<open>TypeError\<close> in the
  final fallback.
\<close>

lemma generate_response_history_raises:
  "initialized text_history_manager
   \<and> \<not> history_ok text_history_manager
   \<and> fst (generate_response demo_world ''Hello'' Map.empty text_history_manager) = Inl TypeError"
proof -
  have i: "initialized text_history_manager" by (simp add: text_history_manager_def initialize_initialized)
  have h: "\<not> history_ok text_history_manager" by code_simp
  have g: "fst (generate_response demo_world ''Hello'' Map.empty text_history_manager) = Inl TypeError"
    by code_simp
  from i h g show ?thesis by blast
qed

text \<open>
  Claim C6. \<open>switch_provider\<close> returns \<open>False\<close> and leaves the manager as it was
  when the name matches no existing provider and no configuration; whenever it returns
  \<open>False\<close> the active provider is unchanged; it returns \<open>True\<close> only when the
  provider found or constructed reports available, and that provider is then the active
  one; and when the provider found or constructed reports unavailable it returns
  \<open>False\<close> and the active provider is unchanged.
\<close>

theorem switch_provider_activation:
  "(find_existing_provider provider_name m = None \<and> provider_configs m (lower provider_name) = None
      \<longrightarrow> switch_provider w provider_name m = (False, m))
   \<and> (\<not> fst (switch_provider w provider_name m)
      \<longrightarrow> active_provider (snd (switch_provider w provider_name m)) = active_provider m)
   \<and> (fst (switch_provider w provider_name m)
      \<longrightarrow> (\<exists>r. fst (find_or_create_provider w provider_name m) = Some r
             \<and> active_provider (snd (switch_provider w provider_name m)) = Some r
             \<and> is_available (objects (snd (switch_provider w provider_name m)) ! r)))
   \<and> (\<forall>r. fst (find_or_create_provider w provider_name m) = Some r
           \<and> \<not> is_available (objects (snd (find_or_create_provider w provider_name m)) ! r)
      \<longrightarrow> \<not> fst (switch_provider w provider_name m)
          \<and> active_provider (snd (switch_provider w provider_name m)) = active_provider m)"
proof -
  obtain t m1 where fc: "find_or_create_provider w provider_name m = (t, m1)"
    by (cases "find_or_create_provider w provider_name m") auto
  have act: "active_provider m1 = active_provider m"
  proof (cases "find_existing_provider provider_name m")
    case (Some r)
    then show ?thesis using fc by (simp add: find_or_create_provider_def)
  next
    case None
    show ?thesis
    proof (cases "provider_configs m (lower provider_name)")
      case n: None
      then show ?thesis using fc None by (simp add: find_or_create_provider_def create_new_provider_def)
    next
      case (Some cfg)
      obtain ok r m2 where c: "create_and_initialize w (lower provider_name) cfg m = (ok, r, m2)"
        by (cases "create_and_initialize w (lower provider_name) cfg m") auto
      from create_and_initialize_props(5)[OF c] fc None Some c show ?thesis
        by (auto simp: find_or_create_provider_def create_new_provider_def split: if_splits)
    qed
  qed
  have a: "find_existing_provider provider_name m = None \<and> provider_configs m (lower provider_name) = None
      \<longrightarrow> switch_provider w provider_name m = (False, m)"
    by (simp add: switch_provider_def find_or_create_provider_def create_new_provider_def)
  have sw: "switch_provider w provider_name m =
      (case t of None \<Rightarrow> (False, m1) | Some r \<Rightarrow> activate_provider r m1)"
    by (simp add: switch_provider_def fc)
  show ?thesis
    using a act unfolding sw fc
    by (cases t) (auto simp: activate_provider_def)
qed

theorem switch_provider_activation_witness:
  "find_existing_provider ''unknown-name'' demo_manager = None
   \<and> provider_configs demo_manager (lower ''unknown-name'') = None
   \<and> switch_provider demo_world ''unknown-name'' demo_manager = (False, demo_manager)
   \<and> \<not> fst (switch_provider demo_world ''openai'' demo_manager)
   \<and> active_provider (snd (switch_provider demo_world ''openai'' demo_manager)) = active_provider demo_manager
   \<and> fst (switch_provider demo_world ''Local'' demo_manager)
   \<and> active_provider (snd (switch_provider demo_world ''Local'' demo_manager)) = Some 0
   \<and> is_available (objects (snd (switch_provider demo_world ''Local'' demo_manager)) ! 0)
   \<and> fst (find_or_create_provider demo_world ''ollama'' stale_manager) = Some 2
   \<and> \<not> is_available (objects (snd (find_or_create_provider demo_world ''ollama'' stale_manager)) ! 2)
   \<and> \<not> fst (switch_provider demo_world ''ollama'' stale_manager)
   \<and> active_provider (snd (switch_provider demo_world ''ollama'' stale_manager)) = active_provider stale_manager"
proof -
  have h1: "find_existing_provider ''unknown-name'' demo_manager = None" by code_simp
  have h2: "provider_configs demo_manager (lower ''unknown-name'') = None" by code_simp
  have h3: "\<not> fst (switch_provider demo_world ''openai'' demo_manager)" by code_simp
  have h4: "fst (switch_provider demo_world ''Local'' demo_manager)" by code_simp
  have h5: "fst (find_or_create_provider demo_world ''Local'' demo_manager) = Some 0" by code_simp
  have h6: "fst (find_or_create_provider demo_world ''ollama'' stale_manager) = Some 2" by code_simp
  have h7: "\<not> is_available (objects (snd (find_or_create_provider demo_world ''ollama'' stale_manager)) ! 2)"
    by code_simp
  from switch_provider_activation[of "''unknown-name''" demo_manager demo_world] h1 h2
  have c1: "switch_provider demo_world ''unknown-name'' demo_manager = (False, demo_manager)" by blast
  from switch_provider_activation[of "''openai''" demo_manager demo_world] h3
  have c2: "active_provider (snd (switch_provider demo_world ''openai'' demo_manager)) = active_provider demo_manager"
    by blast
  from switch_provider_activation[of "''Local''" demo_manager demo_world] h4 h5
  have c3: "active_provider (snd (switch_provider demo_world ''Local'' demo_manager)) = Some 0
          \<and> is_available (objects (snd (switch_provider demo_world ''Local'' demo_manager)) ! 0)"
    by auto
  from switch_provider_activation[of "''ollama''" stale_manager demo_world] h6 h7
  have c4: "\<not> fst (switch_provider demo_world ''ollama'' stale_manager)
          \<and> active_provider (snd (switch_provider demo_world ''ollama'' stale_manager)) = active_provider stale_manager"
    by blast
  from h1 h2 h3 h4 h6 h7 c1 c2 c3 c4 show ?thesis by blast
qed

end
